theory Spec2Isabelle
  imports Complex_Main
begin

unbundle bit_operations_syntax

section \<open>JavaScript numbers\<close>

text \<open>
  The layout code computes with JavaScript numbers. A number is modelled as a real, one of
  the two infinities, or NaN. Finite arithmetic is exact: the rounding of IEEE doubles is
  not modelled, so a sum, difference, product or quotient here is the one the code
  computes whenever that result is a double, as the sums and differences of integers
  below \<open>2^53\<close> and their halves are. The general statements about rectangles below are
  made for rectangles in pixels, where this is the case. The sign of a zero is not
  tracked: a division by zero behaves as a division by \<open>+0\<close>.
\<close>

datatype num = Fin real | PInf | NInf | NaN

text \<open>A value a field can hold: \<open>undefined\<close>, \<open>null\<close> or a number.\<close>

datatype jsval = Undefined | Null | Number num

fun toNumber :: "jsval \<Rightarrow> num" where
  "toNumber Undefined = NaN"
| "toNumber Null = Fin 0"
| "toNumber (Number n) = n"

fun jneg :: "num \<Rightarrow> num" where
  "jneg (Fin a) = Fin (- a)"
| "jneg PInf = NInf"
| "jneg NInf = PInf"
| "jneg NaN = NaN"

fun jadd :: "num \<Rightarrow> num \<Rightarrow> num" where
  "jadd (Fin a) (Fin b) = Fin (a + b)"
| "jadd NaN b = NaN"
| "jadd a NaN = NaN"
| "jadd PInf NInf = NaN"
| "jadd NInf PInf = NaN"
| "jadd PInf b = PInf"
| "jadd a PInf = PInf"
| "jadd NInf b = NInf"
| "jadd a NInf = NInf"

definition jsub :: "num \<Rightarrow> num \<Rightarrow> num" where
  "jsub a b = jadd a (jneg b)"

fun jsgn :: "num \<Rightarrow> real" where
  "jsgn (Fin a) = sgn a"
| "jsgn PInf = 1"
| "jsgn NInf = - 1"
| "jsgn NaN = 0"

fun jmul :: "num \<Rightarrow> num \<Rightarrow> num" where
  "jmul (Fin a) (Fin b) = Fin (a * b)"
| "jmul NaN b = NaN"
| "jmul a NaN = NaN"
| "jmul a b = (let s = jsgn a * jsgn b in if s = 0 then NaN else if 0 < s then PInf else NInf)"

fun jdiv :: "num \<Rightarrow> num \<Rightarrow> num" where
  "jdiv (Fin a) (Fin b) =
     (if b \<noteq> 0 then Fin (a / b) else if 0 < a then PInf else if a < 0 then NInf else NaN)"
| "jdiv NaN b = NaN"
| "jdiv a NaN = NaN"
| "jdiv (Fin a) b = Fin 0"
| "jdiv a (Fin b) = (if 0 \<le> b then a else jneg a)"
| "jdiv a b = NaN"

text \<open>\<open>Math.abs\<close>, \<open>Math.round\<close> (ties go up), \<open>Math.max\<close> and \<open>Math.min\<close>.\<close>

fun jabs :: "num \<Rightarrow> num" where
  "jabs (Fin a) = Fin \<bar>a\<bar>"
| "jabs PInf = PInf"
| "jabs NInf = PInf"
| "jabs NaN = NaN"

fun jround :: "num \<Rightarrow> num" where
  "jround (Fin a) = Fin (of_int \<lfloor>a + 1 / 2\<rfloor>)"
| "jround a = a"

fun jlt :: "num \<Rightarrow> num \<Rightarrow> bool" where
  "jlt NaN b = False"
| "jlt a NaN = False"
| "jlt (Fin a) (Fin b) = (a < b)"
| "jlt a PInf = (a \<noteq> PInf)"
| "jlt NInf b = (b \<noteq> NInf)"
| "jlt a b = False"

text \<open>\<open>===\<close> on numbers: NaN equals nothing.\<close>

definition jeq :: "num \<Rightarrow> num \<Rightarrow> bool" where
  "jeq a b = (a = b \<and> a \<noteq> NaN)"

definition jle :: "num \<Rightarrow> num \<Rightarrow> bool" where
  "jle a b = (jlt a b \<or> jeq a b)"

definition jgt :: "num \<Rightarrow> num \<Rightarrow> bool" where
  "jgt a b = jlt b a"

definition jge :: "num \<Rightarrow> num \<Rightarrow> bool" where
  "jge a b = jle b a"

definition jmax :: "num \<Rightarrow> num \<Rightarrow> num" where
  "jmax a b = (if a = NaN \<or> b = NaN then NaN else if jlt a b then b else a)"

definition jmin :: "num \<Rightarrow> num \<Rightarrow> num" where
  "jmin a b = (if a = NaN \<or> b = NaN then NaN else if jlt b a then b else a)"

section \<open>The layout tree\<close>

datatype axis = AxisX | AxisY

definition LastNodeXPercentage :: num where
  "LastNodeXPercentage = PInf"

definition LastNodeYPercentage :: num where
  "LastNodeYPercentage = NInf"

fun LastNodePercentages :: "axis \<Rightarrow> num" where
  "LastNodePercentages AxisX = LastNodeXPercentage"
| "LastNodePercentages AxisY = LastNodeYPercentage"

definition LastNodeXPercentageJson :: num where
  "LastNodeXPercentageJson = Fin 99999"

definition LastNodeYPercentageJson :: num where
  "LastNodeYPercentageJson = Fin (- 99999)"

record rect =
  rx :: num
  ry :: num
  rwidth :: num
  rheight :: num

text \<open>
  A \<open>LayoutNode\<close> object. \<open>nid\<close> is the identity of the object (its address): two nodes
  are the same object when their \<open>nid\<close> is the same, and \<open>parent\<close> holds the identity of
  the node it refers to (\<open>None\<close> for \<open>null\<close>). The field \<open>children\<close> refers to an array,
  and \<open>childrenRef\<close> is the identity of that array: an array made for a node is named
  after the node, and two nodes with the same \<open>childrenRef\<close> share one array, which
  happens when \<open>revert\<close> copies the reference.
\<close>

record info =
  nid :: nat
  percentage :: jsval
  parent :: "nat option"
  childrenRef :: nat
  rect :: rect
  isResizing :: bool
  isPreview :: bool
  isHighlighted :: bool
  originalRect :: "rect option"
  isSnappingDestination :: bool
  margin :: num

datatype node = Node (info: info) (children: "node list")

definition upd :: "(info \<Rightarrow> info) \<Rightarrow> node \<Rightarrow> node" where
  "upd f n = Node (f (info n)) (children n)"

definition zeroRect :: rect where
  "zeroRect = \<lparr>rx = Fin 0, ry = Fin 0, rwidth = Fin 0, rheight = Fin 0\<rparr>"

definition isLeaf :: "node \<Rightarrow> bool" where
  "isLeaf n = (length (children n) = 0)"

definition isRoot :: "node \<Rightarrow> bool" where
  "isRoot n = (parent (info n) = None)"

definition isRow :: "node \<Rightarrow> bool" where
  "isRow n = jle (toNumber (percentage (info n))) (Fin 0)"

definition isColumn :: "node \<Rightarrow> bool" where
  "isColumn n = jge (toNumber (percentage (info n))) (Fin 0)"

definition axis :: "node \<Rightarrow> axis" where
  "axis n = (if isColumn n then AxisX else AxisY)"

text \<open>
  The constructor \<open>new LayoutNode(percentage, children)\<close>; \<open>i\<close> is the identity of the
  new object. Every child's \<open>parent\<close> is set, and with two or more children the last
  child's percentage is overwritten.
\<close>

definition LayoutNode :: "nat \<Rightarrow> jsval \<Rightarrow> node list \<Rightarrow> node" where
  "LayoutNode i p cs =
     (let cs1 = map (upd (\<lambda>c. c\<lparr>parent := Some i\<rparr>)) cs;
          cs2 = (if 2 \<le> length cs1
                 then (let ax = axis (cs1 ! 0);
                           fillerPercentage =
                             (if ax = AxisX then LastNodeXPercentage else LastNodeYPercentage)
                       in cs1[length cs1 - 1 :=
                            upd (\<lambda>c. c\<lparr>percentage := Number fillerPercentage\<rparr>)
                              (cs1 ! (length cs1 - 1))])
                 else cs1)
      in Node \<lparr>nid = i, percentage = p, parent = None, childrenRef = i, rect = zeroRect,
               isResizing = False, isPreview = False, isHighlighted = False,
               originalRect = None, isSnappingDestination = False, margin = Fin 0\<rparr> cs2)"


text \<open>\<open>clone\<close> allocates new objects; \<open>k\<close> is the next unused identity.\<close>

fun clone :: "node \<Rightarrow> nat \<Rightarrow> node \<times> nat"
  and cloneChildren :: "node list \<Rightarrow> nat \<Rightarrow> node list \<times> nat" where
  "clone (Node i cs) k =
     (case cloneChildren cs k of (cs', k') \<Rightarrow>
        (upd (\<lambda>c. c\<lparr>rect := rect i, isResizing := isResizing i,
                     isPreview := isPreview i, margin := margin i\<rparr>)
           (LayoutNode k' (percentage i) cs'), Suc k'))"
| "cloneChildren [] k = ([], k)"
| "cloneChildren (c # cs) k =
     (case clone c k of (c', k1) \<Rightarrow>
        (case cloneChildren cs k1 of (cs', k2) \<Rightarrow> (c' # cs', k2)))"

definition revert :: "node \<Rightarrow> node \<Rightarrow> node" where
  "revert this snapshotRootNode =
     Node ((info this)\<lparr>percentage := percentage (info snapshotRootNode),
                       rect := rect (info snapshotRootNode),
                       isResizing := isResizing (info snapshotRootNode),
                       isPreview := isPreview (info snapshotRootNode),
                       margin := margin (info snapshotRootNode),
                       childrenRef := childrenRef (info snapshotRootNode)\<rparr>)
          (children snapshotRootNode)"

definition snapRect :: "node \<Rightarrow> rect" where
  "snapRect n =
     \<lparr>rx = jadd (rx (rect (info n))) (margin (info n)),
      ry = jadd (ry (rect (info n))) (margin (info n)),
      rwidth = jsub (rwidth (rect (info n))) (jmul (margin (info n)) (Fin 2)),
      rheight = jsub (rheight (rect (info n))) (jmul (margin (info n)) (Fin 2))\<rparr>"

text \<open>
  \<open>xs.reduce((found, c) => found || f(c), null)\<close>: the first result that is not
  \<open>null\<close>.
\<close>

fun firstSome :: "('a \<Rightarrow> 'b option) \<Rightarrow> 'a list \<Rightarrow> 'b option" where
  "firstSome f [] = None"
| "firstSome f (c # cs) = (case f c of Some r \<Rightarrow> Some r | None \<Rightarrow> firstSome f cs)"

lemma firstSome_cong [fundef_cong]:
  "xs = ys \<Longrightarrow> (\<And>c. c \<in> set ys \<Longrightarrow> f c = g c) \<Longrightarrow> firstSome f xs = firstSome g ys"
  by (induction ys arbitrary: xs) (auto split: option.splits)

fun getIntegrityError :: "node \<Rightarrow> string option" where
  "getIntegrityError (Node i cs) =
     (if length cs = 1 then Some ''broken invariant: children has 1 element''
      else if list_ex (\<lambda>c. percentage (info c) = Null
                           \<or> jlt (toNumber (percentage (info c))) (Fin (- 1))
                           \<or> jgt (toNumber (percentage (info c))) (Fin 1))
                (take (length cs - 1) cs)
      then Some ''broken invariant: percentage not in [-1,1]''
      else if list_ex (\<lambda>c. percentage (info c) \<noteq> Number PInf
                           \<and> percentage (info c) \<noteq> Number NInf)
                (drop (length cs - 1) cs)
      then Some ''broken invariant: last child invalid percentage''
      else firstSome getIntegrityError cs)"

text \<open>
  \<open>calculateRects(x, y, width, height, display)\<close>. The first argument is \<open>None\<close> when the
  method is called without a rectangle, the second is \<open>None\<close> when no display is passed.
  \<open>calculateChildren\<close> is the loop over the children: \<open>prev\<close> is \<open>previousPosOnAxis\<close>, the
  last child is the one that fills the remaining space.
\<close>

fun calculateRects :: "rect option \<Rightarrow> rect option \<Rightarrow> node \<Rightarrow> node"
  and calculateChildren :: "rect \<Rightarrow> rect \<Rightarrow> num \<times> num \<Rightarrow> node list \<Rightarrow> node list" where
  "calculateRects given displayArg (Node i cs) =
     (let r = (case given of None \<Rightarrow> rect i | Some g \<Rightarrow> g);
          i' = i\<lparr>rect := r\<rparr>
      in if length cs = 0 then Node i' cs
         else (let display = (case displayArg of None \<Rightarrow> r | Some d \<Rightarrow> d)
               in Node i' (calculateChildren r display (rx r, ry r) cs)))"
| "calculateChildren r display prev [] = []"
| "calculateChildren r display prev [lastChild] =
     (if axis lastChild = AxisX
      then [calculateRects
              (Some \<lparr>rx = fst prev, ry = ry r,
                     rwidth = jsub (jadd (rx r) (rwidth r)) (fst prev), rheight = rheight r\<rparr>)
              (Some display) lastChild]
      else [calculateRects
              (Some \<lparr>rx = rx r, ry = snd prev,
                     rwidth = rwidth r, rheight = jsub (jadd (ry r) (rheight r)) (snd prev)\<rparr>)
              (Some display) lastChild])"
| "calculateChildren r display prev (child # next # cs) =
     (if axis child = AxisX
      then (let posOnAxis =
                  jadd (rx display)
                    (jmul (jround (jdiv (jabs (jmul (rwidth display)
                       (toNumber (percentage (info child))))) (Fin 10))) (Fin 10))
            in calculateRects
                 (Some \<lparr>rx = fst prev, ry = ry r,
                        rwidth = jsub posOnAxis (fst prev), rheight = rheight r\<rparr>)
                 (Some display) child
               # calculateChildren r display (posOnAxis, snd prev) (next # cs))
      else (let posOnAxis =
                  jadd (ry display)
                    (jmul (jround (jdiv (jabs (jmul (rheight display)
                       (toNumber (percentage (info child))))) (Fin 10))) (Fin 10))
            in calculateRects
                 (Some \<lparr>rx = rx r, ry = snd prev,
                        rwidth = rwidth r, rheight = jsub posOnAxis (snd prev)\<rparr>)
                 (Some display) child
               # calculateChildren r display (fst prev, posOnAxis) (next # cs)))"

fun validateRects :: "node \<Rightarrow> bool" where
  "validateRects (Node i cs) =
     (if jle (rwidth (rect i)) (Fin 100) \<or> jle (rheight (rect i)) (Fin 100) then False
      else list_all validateRects cs)"

text \<open>
  The functions passed to \<open>forSelfAndDescendants\<close> and \<open>forDescendants\<close> assign fields
  of the node they are given, so they are functions on \<open>info\<close>.
\<close>

fun forSelfAndDescendants :: "(info \<Rightarrow> info) \<Rightarrow> node \<Rightarrow> node" where
  "forSelfAndDescendants func (Node i cs) = Node (func i) (map (forSelfAndDescendants func) cs)"

definition forDescendants :: "(info \<Rightarrow> info) \<Rightarrow> node \<Rightarrow> node" where
  "forDescendants func n = Node (info n) (map (forSelfAndDescendants func) (children n))"

text \<open>
  Array methods. \<open>indexOf\<close> compares object identities; it and \<open>findIndex\<close> return
  \<open>-1\<close> when nothing is found. \<open>splice\<close> counts a negative start from the end.
\<close>

fun findIndexFrom :: "int \<Rightarrow> ('a \<Rightarrow> bool) \<Rightarrow> 'a list \<Rightarrow> int" where
  "findIndexFrom k P [] = - 1"
| "findIndexFrom k P (c # cs) = (if P c then k else findIndexFrom (k + 1) P cs)"

definition findIndex :: "('a \<Rightarrow> bool) \<Rightarrow> 'a list \<Rightarrow> int" where
  "findIndex P cs = findIndexFrom 0 P cs"

definition indexOf :: "node \<Rightarrow> node list \<Rightarrow> int" where
  "indexOf n cs = findIndex (\<lambda>c. nid (info c) = nid (info n)) cs"

definition splice :: "int \<Rightarrow> nat \<Rightarrow> 'a list \<Rightarrow> 'a list \<Rightarrow> 'a list" where
  "splice start deleteCount items cs =
     (let len = int (length cs);
          s = nat (if start < 0 then max (len + start) 0 else min start len)
      in take s cs @ items @ drop (s + deleteCount) cs)"

text \<open>
  \<open>this.insertChild(child)\<close>. \<open>insertInto\<close> is the method on the array \<open>this.children\<close>,
  for the receiver with identity \<open>this\<close>; \<open>insertChild\<close> is the receiver afterwards.
\<close>

definition insertInto :: "nat \<Rightarrow> node \<Rightarrow> node list \<Rightarrow> node list" where
  "insertInto this child cs =
     (if indexOf child cs \<noteq> - 1 then cs
      else if percentage (info child) = Number LastNodeXPercentage
              \<or> percentage (info child) = Number LastNodeYPercentage then cs
      else (let child' = upd (\<lambda>c. c\<lparr>parent := Some this\<rparr>) child
            in splice
                 (findIndex (\<lambda>c. jgt (jabs (toNumber (percentage (info c))))
                                     (jabs (toNumber (percentage (info child')))))
                    cs)
                 0 [child'] cs))"

definition insertChild :: "node \<Rightarrow> node \<Rightarrow> node" where
  "insertChild child this =
     Node (info this) (insertInto (nid (info this)) child (children this))"

fun findNode :: "(node \<Rightarrow> bool) \<Rightarrow> node \<Rightarrow> node option" where
  "findNode predicate (Node i cs) =
     (if predicate (Node i cs) then Some (Node i cs) else firstSome (findNode predicate) cs)"

text \<open>\<open>this.delete(node)\<close>: whether a node was deleted, and the receiver afterwards.\<close>

fun delete :: "node \<Rightarrow> node \<Rightarrow> bool \<times> node"
  and deleteIn :: "node \<Rightarrow> node list \<Rightarrow> bool \<times> node list" where
  "delete n (Node i cs) =
     (let index = indexOf n cs
      in if index \<noteq> - 1
         then (if length cs = 2 then (True, Node (i\<lparr>childrenRef := nid i\<rparr>) [])
               else (True, Node i (splice index 1 [] cs)))
         else (case deleteIn n cs of (deleted, cs') \<Rightarrow> (deleted, Node i cs')))"
| "deleteIn n [] = (False, [])"
| "deleteIn n (c # cs) =
     (case delete n c of (deleted, c') \<Rightarrow>
        if deleted then (True, c' # cs)
        else (case deleteIn n cs of (deleted', cs') \<Rightarrow> (deleted', c' # cs')))"

fun findNodeAtPosition :: "num \<Rightarrow> num \<Rightarrow> node \<Rightarrow> node option" where
  "findNodeAtPosition px py (Node i cs) =
     (if jge px (rx (rect i))
         \<and> jle px (jadd (rx (rect i)) (rwidth (rect i)))
         \<and> jge py (ry (rect i))
         \<and> jle py (jadd (ry (rect i)) (rheight (rect i)))
         \<and> isLeaf (Node i cs)
      then Some (Node i cs)
      else firstSome (findNodeAtPosition px py) cs)"

definition getDividerRect :: "num \<Rightarrow> node \<Rightarrow> rect" where
  "getDividerRect dividerWidth0 n =
     (let dividerWidth = jmax dividerWidth0 (jmul (Fin 2) (margin (info n)))
      in if axis n = AxisX
         then \<lparr>rx = jsub (jadd (rx (rect (info n))) (rwidth (rect (info n))))
                      (jdiv dividerWidth (Fin 2)),
               ry = ry (rect (info n)),
               rwidth = dividerWidth,
               rheight = rheight (rect (info n))\<rparr>
         else if axis n = AxisY
         then \<lparr>rx = rx (rect (info n)),
               ry = jsub (jadd (ry (rect (info n))) (rheight (rect (info n))))
                      (jdiv dividerWidth (Fin 2)),
               rwidth = rwidth (rect (info n)),
               rheight = dividerWidth\<rparr>
         else \<lparr>rx = Fin (- 1), ry = Fin (- 1), rwidth = Fin 0, rheight = Fin 0\<rparr>)"

fun findDividerAtPosition :: "num \<Rightarrow> num \<Rightarrow> num \<Rightarrow> node \<Rightarrow> node option" where
  "findDividerAtPosition px py dividerWidth (Node i cs) =
     (let dividerRect = getDividerRect dividerWidth (Node i cs)
      in if jge px (rx dividerRect)
            \<and> jle px (jadd (rx dividerRect) (rwidth dividerRect))
            \<and> jge py (ry dividerRect)
            \<and> jle py (jadd (ry dividerRect) (rheight dividerRect))
         then Some (Node i cs)
         else firstSome (findDividerAtPosition px py dividerWidth) cs)"


section \<open>Serialization\<close>

text \<open>
  The object \<open>toJSON\<close> builds and \<open>fromJSON\<close> reads: the key \<open>children\<close> is there or
  not, \<open>percentage\<close> reads as \<open>undefined\<close> when the key is missing, and \<open>margin\<close> is
  there or not.
\<close>

datatype json = JObj (jchildren: "json list option") (jpercentage: jsval) (jmargin: "num option")

fun toJSON :: "node \<Rightarrow> json" where
  "toJSON (Node i cs) =
     JObj (if 0 < length cs then Some (map toJSON cs) else None)
          (if percentage i \<noteq> Null
           then (if percentage i = Number LastNodeXPercentage then Number LastNodeXPercentageJson
                 else if percentage i = Number LastNodeYPercentage
                 then Number LastNodeYPercentageJson
                 else percentage i)
           else Undefined)
          (if margin i \<noteq> Fin 0 then Some (margin i) else None)"

text \<open>
  \<open>this.fromJSON(json)\<close>: the receiver afterwards. Each child is a \<open>new LayoutNode()\<close>;
  \<open>k\<close> is the next unused object identity.
\<close>

fun fromJSON :: "json \<Rightarrow> node \<Rightarrow> nat \<Rightarrow> node \<times> nat"
  and childrenFromJSON :: "json list \<Rightarrow> nat \<Rightarrow> nat \<Rightarrow> node list \<times> nat" where
  "fromJSON (JObj jc jp jm) this k =
     (let p = (if jp = Number LastNodeXPercentageJson then Number LastNodeXPercentage
               else if jp = Number LastNodeYPercentageJson then Number LastNodeYPercentage
               else jp);
          m = (case jm of Some v \<Rightarrow> v | None \<Rightarrow> margin (info this));
          i = (info this)\<lparr>percentage := p, margin := m\<rparr>
      in case jc of
           None \<Rightarrow> (Node i (children this), k)
         | Some js \<Rightarrow>
             if 0 < length js
             then (case childrenFromJSON js (nid i) k of
                     (cs, k') \<Rightarrow> (Node (i\<lparr>childrenRef := nid i\<rparr>) cs, k'))
             else (Node i (children this), k))"
| "childrenFromJSON [] this k = ([], k)"
| "childrenFromJSON (childJson # js) this k =
     (case fromJSON childJson
             (upd (\<lambda>c. c\<lparr>parent := Some this\<rparr>) (LayoutNode k Undefined [])) (Suc k) of
        (child, k1) \<Rightarrow>
          (case childrenFromJSON js this k1 of (cs, k2) \<Rightarrow> (child # cs, k2)))"

text \<open>
  \<open>LayoutIO.#loadLayoutFromFile\<close>. The argument is the parsed content of the file, or
  \<open>None\<close> when the file is missing or cannot be read or parsed.
\<close>

definition loadLayoutFromFile :: "json option \<Rightarrow> nat \<Rightarrow> node option" where
  "loadLayoutFromFile content k =
     (case content of
        None \<Rightarrow> None
      | Some jsonData \<Rightarrow>
          (let layout = fst (fromJSON jsonData (LayoutNode k Undefined []) (Suc k))
           in case getIntegrityError layout of
                Some integrityError \<Rightarrow> None
              | None \<Rightarrow> Some layout))"

section \<open>Operations\<close>

text \<open>
  A variable of the source that refers to a node holds its identity. \<open>current\<close> reads
  the object a reference names (its state in the tree, or the state the reference was
  taken in when the object is no longer part of the tree), and \<open>assign\<close> is an assignment
  to fields of the object, which the tree sees when the object is part of it.
  \<open>arrayOf\<close> is the array that the \<open>children\<close> of the object with a given identity
  refers to (an object that is not part of the tree has the array made for it), and
  \<open>onArray\<close> is a change of an array in place, which every node that refers to the array
  sees.
\<close>

fun assign :: "nat \<Rightarrow> (node \<Rightarrow> node) \<Rightarrow> node \<Rightarrow> node" where
  "assign ref f (Node i cs) =
     (if nid i = ref then f (Node i cs) else Node i (map (assign ref f) cs))"

definition current :: "node \<Rightarrow> node \<Rightarrow> node" where
  "current tree ref =
     (case findNode (\<lambda>n. nid (info n) = nid (info ref)) tree of
        Some n \<Rightarrow> n
      | None \<Rightarrow> ref)"

definition arrayOf :: "nat \<Rightarrow> node \<Rightarrow> nat" where
  "arrayOf ref tree =
     (case findNode (\<lambda>n. nid (info n) = ref) tree of
        Some n \<Rightarrow> childrenRef (info n)
      | None \<Rightarrow> ref)"

fun onArray :: "nat \<Rightarrow> (node list \<Rightarrow> node list) \<Rightarrow> node \<Rightarrow> node" where
  "onArray a f (Node i cs) =
     (if childrenRef i = a then Node i (f (map (onArray a f) cs))
      else Node i (map (onArray a f) cs))"

record OperationResult =
  handled :: bool
  shouldRedraw :: bool

definition OperationResult_handled :: "OperationResult option" where
  "OperationResult_handled = Some \<lparr>handled = True, shouldRedraw = False\<rparr>"

definition OperationResult_handledAndRedraw :: "OperationResult option" where
  "OperationResult_handledAndRedraw = Some \<lparr>handled = True, shouldRedraw = True\<rparr>"

definition OperationResult_notHandled :: "OperationResult option" where
  "OperationResult_notHandled = None"

text \<open>
  The button, modifier and key constants of the Clutter library, with the values Clutter
  gives them.
\<close>

definition BUTTON_PRIMARY :: nat where "BUTTON_PRIMARY = 1"
definition BUTTON_SECONDARY :: nat where "BUTTON_SECONDARY = 3"
definition SHIFT_MASK :: nat where "SHIFT_MASK = 1"
definition CONTROL_MASK :: nat where "CONTROL_MASK = 4"
definition KEY_Page_Up :: nat where "KEY_Page_Up = 65365"
definition KEY_Page_Down :: nat where "KEY_Page_Down = 65366"
definition KEY_1 :: nat where "KEY_1 = 49"
definition KEY_2 :: nat where "KEY_2 = 50"
definition KEY_3 :: nat where "KEY_3 = 51"
definition KEY_4 :: nat where "KEY_4 = 52"
definition KEY_5 :: nat where "KEY_5 = 53"
definition KEY_6 :: nat where "KEY_6 = 54"
definition KEY_7 :: nat where "KEY_7 = 55"
definition KEY_8 :: nat where "KEY_8 = 56"

text \<open>The base class: an operation holds the tree, and every handler is unhandled.\<close>

record layoutOperation =
  tree :: node

definition onButtonPress :: "num \<Rightarrow> num \<Rightarrow> nat \<Rightarrow> nat \<Rightarrow> 'a layoutOperation_scheme
    \<Rightarrow> OperationResult option \<times> 'a layoutOperation_scheme" where
  "onButtonPress px py state button this = (OperationResult_notHandled, this)"

definition onButtonRelease :: "num \<Rightarrow> num \<Rightarrow> nat \<Rightarrow> nat \<Rightarrow> 'a layoutOperation_scheme
    \<Rightarrow> OperationResult option \<times> 'a layoutOperation_scheme" where
  "onButtonRelease px py state button this = (OperationResult_notHandled, this)"

definition onMotion :: "num \<Rightarrow> num \<Rightarrow> nat \<Rightarrow> 'a layoutOperation_scheme
    \<Rightarrow> OperationResult option \<times> 'a layoutOperation_scheme" where
  "onMotion px py state this = (OperationResult_notHandled, this)"

definition cancel :: "'a layoutOperation_scheme
    \<Rightarrow> OperationResult option \<times> 'a layoutOperation_scheme" where
  "cancel this = (OperationResult_notHandled, this)"

definition onKeyPress :: "num \<Rightarrow> num \<Rightarrow> nat \<Rightarrow> nat \<Rightarrow> 'a layoutOperation_scheme
    \<Rightarrow> OperationResult option \<times> 'a layoutOperation_scheme" where
  "onKeyPress px py state key this = (OperationResult_notHandled, this)"

definition onKeyRelease :: "num \<Rightarrow> num \<Rightarrow> nat \<Rightarrow> 'a layoutOperation_scheme
    \<Rightarrow> OperationResult option \<times> 'a layoutOperation_scheme" where
  "onKeyRelease px py state this = (OperationResult_notHandled, this)"

subsection \<open>ResizeOperation\<close>

record resizeOperation = layoutOperation +
  dividerWidth :: num

definition ResizeOperation :: "node \<Rightarrow> resizeOperation" where
  "ResizeOperation t = \<lparr>tree = t, dividerWidth = Fin 20\<rparr>"

text \<open>
  In \<open>_startResizing\<close> the function that sets \<open>isHighlighted\<close> reads \<open>originalRect\<close>,
  which the first traversal has set on every node of the tree.
\<close>

definition Resize_startResizing :: "node \<Rightarrow> resizeOperation \<Rightarrow> resizeOperation" where
  "Resize_startResizing nodeToResize this =
     (let t1 = assign (nid (info nodeToResize)) (upd (\<lambda>n. n\<lparr>isResizing := True\<rparr>)) (tree this);
          originalPercentage = percentage (info (current t1 nodeToResize));
          t2 = forSelfAndDescendants (\<lambda>n. n\<lparr>originalRect :=
                 Some \<lparr>rx = rx (rect n), ry = ry (rect n),
                       rwidth = rwidth (rect n), rheight = rheight (rect n)\<rparr>\<rparr>) t1;
          t3 = assign (nid (info nodeToResize)) (upd (\<lambda>n. n\<lparr>percentage :=
                 Number (jmul (toNumber (percentage n)) (Fin (95 / 100)))\<rparr>)) t2;
          t4 = calculateRects None None t3;
          t5 = forSelfAndDescendants (\<lambda>n.
                 (case originalRect n of
                    None \<Rightarrow> n
                  | Some orig \<Rightarrow> n\<lparr>isHighlighted :=
                      (\<not> jeq (rx orig) (rx (rect n)) \<or> \<not> jeq (ry orig) (ry (rect n))
                       \<or> \<not> jeq (rwidth orig) (rwidth (rect n))
                       \<or> \<not> jeq (rheight orig) (rheight (rect n)))\<rparr>)) t4;
          t6 = assign (nid (info nodeToResize)) (upd (\<lambda>n. n\<lparr>percentage := originalPercentage\<rparr>)) t5
      in this\<lparr>tree := calculateRects None None t6\<rparr>)"

definition Resize_stopResizing :: "resizeOperation \<Rightarrow> resizeOperation" where
  "Resize_stopResizing this =
     this\<lparr>tree := forSelfAndDescendants
       (\<lambda>n. n\<lparr>isResizing := False, originalRect := None, isHighlighted := False\<rparr>)
       (tree this)\<rparr>"

definition Resize_handleResizing :: "num \<Rightarrow> num \<Rightarrow> resizeOperation
    \<Rightarrow> OperationResult option \<times> resizeOperation" where
  "Resize_handleResizing px py this =
     (case findNode (\<lambda>n. isResizing (info n) = True) (tree this) of
        None \<Rightarrow> (OperationResult_notHandled, this)
      | Some resizingNode \<Rightarrow>
          (let newPercentage =
                 (if isColumn resizingNode
                  then jdiv (jsub px (rx (rect (info (tree this)))))
                         (rwidth (rect (info (tree this))))
                  else jneg (jdiv (jsub py (ry (rect (info (tree this)))))
                         (rheight (rect (info (tree this))))));
               oldPercentage = percentage (info resizingNode);
               t1 = assign (nid (info resizingNode))
                      (upd (\<lambda>n. n\<lparr>percentage := Number newPercentage\<rparr>)) (tree this);
               t2 = calculateRects None None t1
           in if \<not> validateRects t2
              then (OperationResult_handledAndRedraw,
                    this\<lparr>tree := calculateRects None None
                      (assign (nid (info resizingNode)) (upd (\<lambda>n. n\<lparr>percentage := oldPercentage\<rparr>)) t2)\<rparr>)
              else (OperationResult_handledAndRedraw, this\<lparr>tree := t2\<rparr>)))"

definition Resize_onButtonPress :: "num \<Rightarrow> num \<Rightarrow> nat \<Rightarrow> nat \<Rightarrow> resizeOperation
    \<Rightarrow> OperationResult option \<times> resizeOperation" where
  "Resize_onButtonPress px py state button this =
     (let resizeNode = findNode (\<lambda>c. isResizing (info c) = True) (tree this);
          nodeWithDivider =
            (if resizeNode = None \<and> button = BUTTON_SECONDARY
             then findDividerAtPosition px py (dividerWidth this) (tree this) else None)
      in case nodeWithDivider of
           Some n \<Rightarrow>
             (OperationResult_handledAndRedraw,
              this\<lparr>tree := calculateRects None None (snd (delete n (tree this)))\<rparr>)
         | None \<Rightarrow>
             if resizeNode \<noteq> None \<and> button = BUTTON_PRIMARY
             then (OperationResult_handledAndRedraw, Resize_stopResizing this)
             else if resizeNode \<noteq> None \<and> button = BUTTON_SECONDARY
             then (OperationResult_handledAndRedraw, Resize_stopResizing this)
             else if button = BUTTON_PRIMARY
             then (case findDividerAtPosition px py (dividerWidth this) (tree this) of
                     Some nodeToResize \<Rightarrow>
                       (OperationResult_handledAndRedraw,
                        Resize_startResizing nodeToResize this)
                   | None \<Rightarrow> (OperationResult_notHandled, this))
             else (OperationResult_notHandled, this))"

definition Resize_onButtonRelease :: "num \<Rightarrow> num \<Rightarrow> nat \<Rightarrow> nat \<Rightarrow> resizeOperation
    \<Rightarrow> OperationResult option \<times> resizeOperation" where
  "Resize_onButtonRelease px py state button this =
     (if button = BUTTON_PRIMARY \<and> findNode (\<lambda>n. isResizing (info n)) (tree this) \<noteq> None
      then (OperationResult_handledAndRedraw, Resize_stopResizing this)
      else (OperationResult_notHandled, this))"

definition Resize_onMotion :: "num \<Rightarrow> num \<Rightarrow> nat \<Rightarrow> resizeOperation
    \<Rightarrow> OperationResult option \<times> resizeOperation" where
  "Resize_onMotion px py state this = Resize_handleResizing px py this"


subsection \<open>PreviewSplitOperation\<close>

text \<open>\<open>fresh\<close> is the next unused object identity, for the nodes the operation creates.\<close>

record previewSplitOperation = layoutOperation +
  prePreviewSnapshot :: "node option"
  fresh :: nat

definition PreviewSplit_cancel :: "previewSplitOperation \<Rightarrow> previewSplitOperation" where
  "PreviewSplit_cancel this =
     (case prePreviewSnapshot this of
        Some snapshot \<Rightarrow> this\<lparr>tree := revert (tree this) snapshot, prePreviewSnapshot := None\<rparr>
      | None \<Rightarrow> this)"

definition PreviewSplit_startPreview :: "node \<Rightarrow> num \<Rightarrow> previewSplitOperation
    \<Rightarrow> node \<times> previewSplitOperation" where
  "PreviewSplit_startPreview splittingNode pct this =
     (let previewNode =
            upd (\<lambda>n. n\<lparr>isPreview := True, isHighlighted := True,
                        margin := margin (info splittingNode)\<rparr>)
              (LayoutNode (fresh this) (Number pct) []);
          sameAxisParent =
            (if axis previewNode = axis splittingNode then parent (info splittingNode)
             else None)
      in case sameAxisParent of
           Some splittingParent \<Rightarrow>
             (let t1 = onArray (arrayOf splittingParent (tree this))
                         (insertInto splittingParent previewNode) (tree this);
                  t2 = assign (nid (info splittingNode))
                         (upd (\<lambda>n. n\<lparr>isHighlighted := True\<rparr>)) t1
              in (current t2 previewNode, this\<lparr>tree := t2, fresh := fresh this + 1\<rparr>))
         | None \<Rightarrow>
             (let lastChild =
                    upd (\<lambda>n. n\<lparr>isHighlighted := True,
                                parent := Some (nid (info splittingNode)),
                                margin := margin (info splittingNode)\<rparr>)
                      (LayoutNode (fresh this + 1)
                         (Number (LastNodePercentages (axis previewNode))) []);
                  previewNode' =
                    upd (\<lambda>n. n\<lparr>parent := Some (nid (info splittingNode))\<rparr>) previewNode
              in (previewNode',
                  this\<lparr>tree := assign (nid (info splittingNode))
                                  (\<lambda>n. Node ((info n)\<lparr>childrenRef := nid (info n)\<rparr>)
                                         [previewNode', lastChild]) (tree this),
                       fresh := fresh this + 2\<rparr>)))"

definition PreviewSplit_finalizePreview :: "previewSplitOperation \<Rightarrow> previewSplitOperation" where
  "PreviewSplit_finalizePreview this =
     (if validateRects (tree this)
      then this\<lparr>prePreviewSnapshot := None,
                tree := forSelfAndDescendants
                  (\<lambda>n. n\<lparr>isPreview := False, originalRect := None\<rparr>) (tree this)\<rparr>
      else this)"

text \<open>
  \<open>_handlePreview\<close>: the three statements guarded by \<open>if\<close> run one after the other on
  the operation, the local variable \<open>previewNode\<close> and the local variable \<open>result\<close>.
\<close>

definition pointerPercentage :: "bool \<Rightarrow> num \<Rightarrow> num \<Rightarrow> node \<Rightarrow> num" where
  "pointerPercentage column px py t =
     (if column
      then jdiv (jsub px (rx (rect (info t)))) (rwidth (rect (info t)))
      else jneg (jdiv (jsub py (ry (rect (info t)))) (rheight (rect (info t)))))"

definition PreviewSplit_handlePreview :: "num \<Rightarrow> num \<Rightarrow> nat \<Rightarrow> previewSplitOperation
    \<Rightarrow> OperationResult option \<times> previewSplitOperation" where
  "PreviewSplit_handlePreview px py state this =
     (let ctrlPressed = (state AND CONTROL_MASK \<noteq> 0);
          shiftPressed = (state AND SHIFT_MASK \<noteq> 0);
          previewModeEnabled = (ctrlPressed \<or> shiftPressed);
          node = findNodeAtPosition px py (tree this);
          previewNode = findNode (\<lambda>n. isPreview (info n)) (tree this);
          result = OperationResult_notHandled;
          (this1, previewNode1, result1) =
            (if (case previewNode of
                   None \<Rightarrow> False
                 | Some pn \<Rightarrow>
                     (case node of None \<Rightarrow> False
                      | Some n \<Rightarrow> parent (info n) \<noteq> parent (info pn))
                     \<or> \<not> previewModeEnabled)
             then (let c = PreviewSplit_cancel this
                   in (c\<lparr>tree := calculateRects None None (tree c)\<rparr>, None,
                       OperationResult_handledAndRedraw))
             else (this, previewNode, result));
          (this2, previewNode2, result2) =
            (case node of
               None \<Rightarrow> (this1, previewNode1, result1)
             | Some n \<Rightarrow>
                 if previewNode1 = None \<and> isLeaf (current (tree this1) n) \<and> previewModeEnabled
                 then (let s = this1\<lparr>prePreviewSnapshot := Some (fst (clone (tree this1) (fresh this1))),
                                      fresh := snd (clone (tree this1) (fresh this1))\<rparr>;
                           column = ctrlPressed;
                           pct = pointerPercentage column px py (tree s);
                           (pn, s1) = PreviewSplit_startPreview (current (tree s) n) pct s;
                           s2 = s1\<lparr>tree := calculateRects None None (tree s1)\<rparr>;
                           s3 = (if \<not> validateRects (tree s2) then PreviewSplit_cancel s2 else s2)
                       in (s3, Some pn, OperationResult_handledAndRedraw))
                 else (this1, previewNode1, result1));
          (this3, result3) =
            (case previewNode2 of
               None \<Rightarrow> (this2, result2)
             | Some pn0 \<Rightarrow>
                 (let pn = current (tree this2) pn0;
                      pct = pointerPercentage (isColumn pn) px py (tree this2);
                      oldPercentage = percentage (info pn);
                      t1 = assign (nid (info pn))
                             (upd (\<lambda>n. n\<lparr>percentage := Number pct\<rparr>)) (tree this2);
                      t2 = calculateRects None None t1;
                      t3 = (if \<not> validateRects t2
                            then calculateRects None None
                                   (assign (nid (info pn))
                                      (upd (\<lambda>n. n\<lparr>percentage := oldPercentage\<rparr>)) t2)
                            else t2)
                  in (this2\<lparr>tree := t3\<rparr>, OperationResult_handledAndRedraw)))
      in (result3, this3))"

definition PreviewSplit_onMotion :: "num \<Rightarrow> num \<Rightarrow> nat \<Rightarrow> previewSplitOperation
    \<Rightarrow> OperationResult option \<times> previewSplitOperation" where
  "PreviewSplit_onMotion px py state this = PreviewSplit_handlePreview px py state this"

definition PreviewSplit_onKeyPress :: "num \<Rightarrow> num \<Rightarrow> nat \<Rightarrow> nat \<Rightarrow> previewSplitOperation
    \<Rightarrow> OperationResult option \<times> previewSplitOperation" where
  "PreviewSplit_onKeyPress px py state key this = PreviewSplit_handlePreview px py state this"

definition PreviewSplit_onKeyRelease :: "num \<Rightarrow> num \<Rightarrow> nat \<Rightarrow> previewSplitOperation
    \<Rightarrow> OperationResult option \<times> previewSplitOperation" where
  "PreviewSplit_onKeyRelease px py state this =
     (let ctrlPressed = (state AND CONTROL_MASK \<noteq> 0);
          shiftPressed = (state AND SHIFT_MASK \<noteq> 0)
      in if ctrlPressed \<or> shiftPressed
         then (OperationResult_handledAndRedraw, PreviewSplit_cancel this)
         else (OperationResult_notHandled, this))"

definition PreviewSplit_onButtonPress :: "num \<Rightarrow> num \<Rightarrow> nat \<Rightarrow> nat \<Rightarrow> previewSplitOperation
    \<Rightarrow> OperationResult option \<times> previewSplitOperation" where
  "PreviewSplit_onButtonPress px py state button this =
     (let previewNode = findNode (\<lambda>n. isPreview (info n)) (tree this)
      in if previewNode \<noteq> None \<and> button = BUTTON_PRIMARY
         then (OperationResult_handledAndRedraw, PreviewSplit_finalizePreview this)
         else PreviewSplit_handlePreview px py state this)"

subsection \<open>SnappingOperation\<close>

record snappingOperation = layoutOperation +
  showRegions :: bool
  enableSnappingModifiers :: "nat list"

definition Snapping_cancel :: "snappingOperation
    \<Rightarrow> OperationResult option \<times> snappingOperation" where
  "Snapping_cancel this =
     (if showRegions this
      then (OperationResult_handledAndRedraw,
            this\<lparr>showRegions := False,
                 tree := forSelfAndDescendants
                   (\<lambda>n. n\<lparr>isSnappingDestination := False, isHighlighted := False\<rparr>)
                   (tree this)\<rparr>)
      else (OperationResult_notHandled, this))"

definition Snapping_onMotion :: "num \<Rightarrow> num \<Rightarrow> nat \<Rightarrow> snappingOperation
    \<Rightarrow> OperationResult option \<times> snappingOperation" where
  "Snapping_onMotion px py state this =
     (let snappingEnabled =
            (length (enableSnappingModifiers this) = 0
             \<or> list_ex (\<lambda>e. state AND e \<noteq> 0) (enableSnappingModifiers this))
      in if \<not> snappingEnabled then Snapping_cancel this
         else (case findNodeAtPosition px py (tree this) of
                 None \<Rightarrow> Snapping_cancel this
               | Some node \<Rightarrow>
                   (let t1 = forSelfAndDescendants
                               (\<lambda>n. n\<lparr>isSnappingDestination := False, isHighlighted := False\<rparr>)
                               (tree this);
                        t2 = assign (nid (info node))
                               (upd (\<lambda>n. n\<lparr>isSnappingDestination := True,
                                           isHighlighted := True\<rparr>)) t1
                    in (OperationResult_handledAndRedraw,
                        this\<lparr>showRegions := True, tree := t2\<rparr>))))"

definition Snapping_currentSnapToRect :: "snappingOperation \<Rightarrow> rect option" where
  "Snapping_currentSnapToRect this =
     (case findNode (\<lambda>n. isSnappingDestination (info n)) (tree this) of
        None \<Rightarrow> None
      | Some snapToNode \<Rightarrow> Some (snapRect snapToNode))"

subsection \<open>MarginsOperation\<close>

record marginsOperation = layoutOperation +
  marginMin :: num
  marginMax :: num

definition MarginsOperation :: "node \<Rightarrow> marginsOperation" where
  "MarginsOperation t = \<lparr>tree = t, marginMin = Fin 0, marginMax = Fin 20\<rparr>"

definition Margins_onKeyPress :: "num \<Rightarrow> num \<Rightarrow> nat \<Rightarrow> nat \<Rightarrow> marginsOperation
    \<Rightarrow> OperationResult option \<times> marginsOperation" where
  "Margins_onKeyPress px py state key this =
     (if key = KEY_Page_Up
      then (OperationResult_handledAndRedraw,
            this\<lparr>tree := calculateRects None None
              (forDescendants
                 (\<lambda>n. n\<lparr>margin := jmax (jmin (jadd (margin n) (Fin 1)) (marginMax this))
                                      (marginMin this)\<rparr>)
                 (tree this))\<rparr>)
      else if key = KEY_Page_Down
      then (OperationResult_handledAndRedraw,
            this\<lparr>tree := calculateRects None None
              (forDescendants
                 (\<lambda>n. n\<lparr>margin := jmax (jmin (jsub (margin n) (Fin 1)) (marginMax this))
                                      (marginMin this)\<rparr>)
                 (tree this))\<rparr>)
      else (OperationResult_notHandled, this))"

subsection \<open>PresetShortcutOperation\<close>

text \<open>
  The callback \<open>onUsePreset\<close> is the caller's: it acts on the caller's state \<open>'w\<close>, of
  which the tree is a part. An index past the end of \<open>presets\<close> reads \<open>undefined\<close>,
  which is \<open>None\<close> here.
\<close>

record 'w presetShortcutOperation = layoutOperation +
  presets :: "node list"
  onUsePreset :: "node option \<Rightarrow> 'w \<Rightarrow> 'w"

definition element :: "'a list \<Rightarrow> nat \<Rightarrow> 'a option" where
  "element xs k = (if k < length xs then Some (xs ! k) else None)"

definition PresetShortcut_onKeyPress :: "num \<Rightarrow> num \<Rightarrow> nat \<Rightarrow> nat
    \<Rightarrow> 'w presetShortcutOperation \<Rightarrow> 'w \<Rightarrow> OperationResult option \<times> 'w" where
  "PresetShortcut_onKeyPress px py state key this w =
     (if key = KEY_1 then (OperationResult_handledAndRedraw, onUsePreset this (element (presets this) 0) w)
      else if key = KEY_2 then (OperationResult_handledAndRedraw, onUsePreset this (element (presets this) 1) w)
      else if key = KEY_3 then (OperationResult_handledAndRedraw, onUsePreset this (element (presets this) 2) w)
      else if key = KEY_4 then (OperationResult_handledAndRedraw, onUsePreset this (element (presets this) 3) w)
      else if key = KEY_5 then (OperationResult_handledAndRedraw, onUsePreset this (element (presets this) 4) w)
      else if key = KEY_6 then (OperationResult_handledAndRedraw, onUsePreset this (element (presets this) 5) w)
      else if key = KEY_7 then (OperationResult_handledAndRedraw, onUsePreset this (element (presets this) 6) w)
      else if key = KEY_8 then (OperationResult_handledAndRedraw, onUsePreset this (element (presets this) 7) w)
      else (OperationResult_notHandled, w))"



subsection \<open>Input events\<close>

text \<open>
  An input event, and the handler of each operation class that receives it: the method of
  the class, or the method of the base class where the class does not override it.
\<close>

datatype event =
    ButtonPress num num nat nat
  | ButtonRelease num num nat nat
  | Motion num num nat
  | KeyPress num num nat nat
  | KeyRelease num num nat

fun Resize_handle :: "event \<Rightarrow> resizeOperation \<Rightarrow> OperationResult option \<times> resizeOperation" where
  "Resize_handle (ButtonPress px py state button) this = Resize_onButtonPress px py state button this"
| "Resize_handle (ButtonRelease px py state button) this = Resize_onButtonRelease px py state button this"
| "Resize_handle (Motion px py state) this = Resize_onMotion px py state this"
| "Resize_handle (KeyPress px py state key) this = onKeyPress px py state key this"
| "Resize_handle (KeyRelease px py state) this = onKeyRelease px py state this"

fun PreviewSplit_handle :: "event \<Rightarrow> previewSplitOperation
    \<Rightarrow> OperationResult option \<times> previewSplitOperation" where
  "PreviewSplit_handle (ButtonPress px py state button) this = PreviewSplit_onButtonPress px py state button this"
| "PreviewSplit_handle (ButtonRelease px py state button) this = onButtonRelease px py state button this"
| "PreviewSplit_handle (Motion px py state) this = PreviewSplit_onMotion px py state this"
| "PreviewSplit_handle (KeyPress px py state key) this = PreviewSplit_onKeyPress px py state key this"
| "PreviewSplit_handle (KeyRelease px py state) this = PreviewSplit_onKeyRelease px py state this"

fun Margins_handle :: "event \<Rightarrow> marginsOperation \<Rightarrow> OperationResult option \<times> marginsOperation" where
  "Margins_handle (ButtonPress px py state button) this = onButtonPress px py state button this"
| "Margins_handle (ButtonRelease px py state button) this = onButtonRelease px py state button this"
| "Margins_handle (Motion px py state) this = onMotion px py state this"
| "Margins_handle (KeyPress px py state key) this = Margins_onKeyPress px py state key this"
| "Margins_handle (KeyRelease px py state) this = onKeyRelease px py state this"

fun Snapping_handle :: "event \<Rightarrow> snappingOperation \<Rightarrow> OperationResult option \<times> snappingOperation" where
  "Snapping_handle (ButtonPress px py state button) this = onButtonPress px py state button this"
| "Snapping_handle (ButtonRelease px py state button) this = onButtonRelease px py state button this"
| "Snapping_handle (Motion px py state) this = Snapping_onMotion px py state this"
| "Snapping_handle (KeyPress px py state key) this = onKeyPress px py state key this"
| "Snapping_handle (KeyRelease px py state) this = onKeyRelease px py state this"

text \<open>
  The handlers \<open>PresetShortcutOperation\<close> inherits do not call the callback, so they leave
  the caller's state as it is.
\<close>

fun PresetShortcut_handle :: "event \<Rightarrow> 'w presetShortcutOperation \<Rightarrow> 'w
    \<Rightarrow> OperationResult option \<times> 'w" where
  "PresetShortcut_handle (ButtonPress px py state button) this w =
     (fst (onButtonPress px py state button this), w)"
| "PresetShortcut_handle (ButtonRelease px py state button) this w =
     (fst (onButtonRelease px py state button this), w)"
| "PresetShortcut_handle (Motion px py state) this w = (fst (onMotion px py state this), w)"
| "PresetShortcut_handle (KeyPress px py state key) this w = PresetShortcut_onKeyPress px py state key this w"
| "PresetShortcut_handle (KeyRelease px py state) this w = (fst (onKeyRelease px py state this), w)"

section \<open>The default layouts\<close>

text \<open>The layouts \<open>LayoutOf2x2\<close> and \<open>LayoutOf2x3\<close> of \<open>application.js\<close>.\<close>

definition LayoutOf2x2 :: node where
  "LayoutOf2x2 =
     LayoutNode 0 (Number (Fin 0))
       [LayoutNode 1 (Number (Fin (1 / 2)))
          [LayoutNode 2 (Number (Fin (- (1 / 2)))) [], LayoutNode 3 (Number (Fin 0)) []],
        LayoutNode 4 (Number (Fin 0))
          [LayoutNode 5 (Number (Fin (- (1 / 2)))) [], LayoutNode 6 (Number (Fin 0)) []]]"

definition LayoutOf2x3 :: node where
  "LayoutOf2x3 =
     LayoutNode 0 (Number (Fin 0))
       [LayoutNode 1 (Number (Fin (1 / 2)))
          [LayoutNode 2 (Number (Fin (- (1 / 3)))) [], LayoutNode 3 (Number (Fin (- (2 / 3)))) [],
           LayoutNode 4 (Number (Fin 0)) []],
        LayoutNode 5 (Number (Fin 0))
          [LayoutNode 6 (Number (Fin (- (1 / 3)))) [], LayoutNode 7 (Number (Fin (- (2 / 3)))) [],
           LayoutNode 8 (Number (Fin 0)) []]]"

text \<open>
  Shorthands for writing down trees: the fields of a node whose flags are all off and whose
  margin is 0, and a rectangle with finite coordinates.
\<close>

definition plain :: "nat \<Rightarrow> jsval \<Rightarrow> nat option \<Rightarrow> rect \<Rightarrow> info" where
  "plain i p q r =
     \<lparr>nid = i, percentage = p, parent = q, childrenRef = i, rect = r,
      isResizing = False, isPreview = False, isHighlighted = False,
      originalRect = None, isSnappingDestination = False, margin = Fin 0\<rparr>"

definition fields :: "nat \<Rightarrow> jsval \<Rightarrow> nat option \<Rightarrow> rect \<Rightarrow> bool \<Rightarrow> bool \<Rightarrow> rect option
    \<Rightarrow> info" where
  "fields i p q r resizing highlighted orig =
     \<lparr>nid = i, percentage = p, parent = q, childrenRef = i, rect = r,
      isResizing = resizing, isPreview = False, isHighlighted = highlighted,
      originalRect = orig, isSnappingDestination = False, margin = Fin 0\<rparr>"

definition xywh :: "real \<Rightarrow> real \<Rightarrow> real \<Rightarrow> real \<Rightarrow> rect" where
  "xywh a b c d = \<lparr>rx = Fin a, ry = Fin b, rwidth = Fin c, rheight = Fin d\<rparr>"

text \<open>
  The 2x2 layout after \<open>calculateRects(0, 0, 1000, 800)\<close>, and the resize operation on it
  after the primary button was pressed on the divider of the root's first child.
\<close>

definition seeded2x2 :: node where
  "seeded2x2 = calculateRects (Some (xywh 0 0 1000 800)) None LayoutOf2x2"

definition resizing2x2 :: resizeOperation where
  "resizing2x2 =
     snd (Resize_onButtonPress (Fin 500) (Fin 200) 0 BUTTON_PRIMARY (ResizeOperation seeded2x2))"

text \<open>The 2x3 layout after \<open>calculateRects(0, 0, 1000, 900)\<close>.\<close>

definition seeded2x3 :: node where
  "seeded2x3 = calculateRects (Some (xywh 0 0 1000 900)) None LayoutOf2x3"

section \<open>Ordered children\<close>

text \<open>
  The children of a node are ordered ascending by the absolute value of their percentage,
  and the last of them carries a sentinel.
\<close>

definition absPercentage :: "node \<Rightarrow> num" where
  "absPercentage c = jabs (toNumber (percentage (info c)))"

definition ascending :: "node list \<Rightarrow> bool" where
  "ascending cs = sorted_wrt (\<lambda>a b. jle (absPercentage a) (absPercentage b)) cs"

definition endsWithSentinel :: "node list \<Rightarrow> bool" where
  "endsWithSentinel cs =
     (cs \<noteq> [] \<and> (percentage (info (last cs)) = Number PInf \<or> percentage (info (last cs)) = Number NInf))"


text \<open>A node with three columns, to insert into.\<close>

definition threeColumns :: node where
  "threeColumns =
     LayoutNode 0 (Number (Fin 0))
       [LayoutNode 1 (Number (Fin (1 / 4))) [], LayoutNode 2 (Number (Fin (3 / 4))) [],
        LayoutNode 3 (Number (Fin 0)) []]"

section \<open>Preset shortcuts\<close>

text \<open>The eight keys, and a callback that records the argument of each call.\<close>

definition presetKeys :: "nat list" where
  "presetKeys = [KEY_1, KEY_2, KEY_3, KEY_4, KEY_5, KEY_6, KEY_7, KEY_8]"

definition recordCall :: "node option \<Rightarrow> node option list \<Rightarrow> node option list" where
  "recordCall preset calls = calls @ [preset]"

section \<open>Divider hit-testing\<close>

text \<open>
  A rectangle contains a point (its edges included), and the nodes of a tree in
  pre-order.
\<close>

definition contains :: "rect \<Rightarrow> num \<Rightarrow> num \<Rightarrow> bool" where
  "contains r px py =
     (jge px (rx r) \<and> jle px (jadd (rx r) (rwidth r))
      \<and> jge py (ry r) \<and> jle py (jadd (ry r) (rheight r)))"

fun preorder :: "node \<Rightarrow> node list" where
  "preorder (Node i cs) = Node i cs # concat (map preorder cs)"

section \<open>The structure of a tree\<close>

text \<open>What a round trip through JSON is to keep: percentage, margin and children.\<close>

datatype shape = Shape jsval num "shape list"

fun shapeOf :: "node \<Rightarrow> shape" where
  "shapeOf (Node i cs) = Shape (percentage i) (margin i) (map shapeOf cs)"

text \<open>A percentage that is not \<open>null\<close> and not one of the two numbers used on the wire.\<close>

definition wireSafe :: "jsval \<Rightarrow> bool" where
  "wireSafe p =
     (p \<noteq> Null \<and> p \<noteq> Number LastNodeXPercentageJson \<and> p \<noteq> Number LastNodeYPercentageJson)"

fun wireSafeTree :: "node \<Rightarrow> bool" where
  "wireSafeTree (Node i cs) = (wireSafe (percentage i) \<and> list_all wireSafeTree cs)"

section \<open>Tiling\<close>

text \<open>
  The span of a rectangle along an axis starts at \<open>start\<close> and is \<open>extent\<close> long.
  Rectangles are consecutive from one position to another when the first starts at the
  one, each next starts where the one before it ends, and the last ends at the other.
\<close>

fun start :: "axis \<Rightarrow> rect \<Rightarrow> num" where
  "start AxisX r = rx r"
| "start AxisY r = ry r"

fun extent :: "axis \<Rightarrow> rect \<Rightarrow> num" where
  "extent AxisX r = rwidth r"
| "extent AxisY r = rheight r"

fun other :: "axis \<Rightarrow> axis" where
  "other AxisX = AxisY"
| "other AxisY = AxisX"

fun consecutive :: "axis \<Rightarrow> num \<Rightarrow> rect list \<Rightarrow> num \<Rightarrow> bool" where
  "consecutive a from [] to = jeq from to"
| "consecutive a from (r # rs) to =
     (jeq (start a r) from \<and> consecutive a (jadd (start a r) (extent a r)) rs to)"

text \<open>
  The children of a node tile it along an axis: their spans along the axis are
  consecutive from the near edge of the node to its far edge, and in the other dimension
  each child starts where the node starts and is as long as the node.
\<close>

definition tiles :: "axis \<Rightarrow> node \<Rightarrow> bool" where
  "tiles a n =
     (consecutive a (start a (rect (info n))) (map (\<lambda>c. rect (info c)) (children n))
        (jadd (start a (rect (info n))) (extent a (rect (info n))))
      \<and> list_all (\<lambda>c. jeq (start (other a) (rect (info c))) (start (other a) (rect (info n)))
                      \<and> jeq (extent (other a) (rect (info c))) (extent (other a) (rect (info n))))
           (children n))"

text \<open>Every internal node is tiled along the axis of its first child.\<close>

fun allTile :: "node \<Rightarrow> bool" where
  "allTile (Node i cs) =
     (if cs = [] then True else tiles (axis (hd cs)) (Node i cs) \<and> list_all allTile cs)"

text \<open>
  The children of every internal node are on one axis, and every child but the last has
  a finite number as its percentage.
\<close>

fun sameAxis :: "node \<Rightarrow> bool" where
  "sameAxis (Node i cs) = (list_all (\<lambda>c. axis c = axis (hd cs)) cs \<and> list_all sameAxis cs)"

definition finitePercentage :: "node \<Rightarrow> bool" where
  "finitePercentage c = (case percentage (info c) of Number (Fin q) \<Rightarrow> True | _ \<Rightarrow> False)"

fun finitePercentages :: "node \<Rightarrow> bool" where
  "finitePercentages (Node i cs) =
     (list_all finitePercentage (butlast cs) \<and> list_all finitePercentages cs)"

text \<open>Every rectangle of the tree has a positive width and height.\<close>

fun positiveRects :: "node \<Rightarrow> bool" where
  "positiveRects (Node i cs) =
     (jlt (Fin 0) (rwidth (rect i)) \<and> jlt (Fin 0) (rheight (rect i))
      \<and> list_all positiveRects cs)"

section \<open>Pixels\<close>

text \<open>
  The rectangles the application lays a tree out on are work areas of a monitor, in
  pixels, the margin of a node is changed in steps of one, and the width of a divider is
  20. A number is a pixel count when it is an integer of magnitude at most \<open>2^31\<close>. The
  sums, differences and halves of pixel counts are computed without rounding by double
  arithmetic, as they are here.
\<close>

definition pixel :: "num \<Rightarrow> bool" where
  "pixel v = (case v of Fin q \<Rightarrow> q = of_int \<lfloor>q\<rfloor> \<and> \<bar>q\<bar> \<le> 2 ^ 31 | _ \<Rightarrow> False)"

definition pixelRect :: "rect \<Rightarrow> bool" where
  "pixelRect r = (pixel (rx r) \<and> pixel (ry r) \<and> pixel (rwidth r) \<and> pixel (rheight r))"

text \<open>
  What \<open>calculateRects\<close> computes on a display in pixels: an edge is an integer of
  magnitude at most \<open>2^32 + 5\<close>, a rectangle is framed when its near and far edges along
  both axes are edges, and a start or extent is whole when it is an integer of magnitude
  at most \<open>2^34\<close>.
\<close>

definition edge :: "real \<Rightarrow> bool" where
  "edge v = (v = of_int \<lfloor>v\<rfloor> \<and> \<bar>v\<bar> \<le> 2 ^ 32 + 5)"

definition framed :: "real \<Rightarrow> real \<Rightarrow> real \<Rightarrow> real \<Rightarrow> bool" where
  "framed a b c d = (edge a \<and> edge b \<and> edge (a + c) \<and> edge (b + d))"

definition whole :: "num \<Rightarrow> bool" where
  "whole v = (case v of Fin q \<Rightarrow> q = of_int \<lfloor>q\<rfloor> \<and> \<bar>q\<bar> \<le> 2 ^ 34 | _ \<Rightarrow> False)"

fun wholeRects :: "node \<Rightarrow> bool" where
  "wholeRects (Node i cs) =
     (whole (rx (rect i)) \<and> whole (ry (rect i)) \<and> whole (rwidth (rect i))
      \<and> whole (rheight (rect i)) \<and> list_all wholeRects cs)"

text \<open>
  What \<open>getDividerRect\<close> computes from pixels: a half is a multiple of 1/2 of magnitude
  at most \<open>2^33\<close>.
\<close>

definition half :: "num \<Rightarrow> bool" where
  "half v = (case v of Fin q \<Rightarrow> 2 * q = of_int \<lfloor>2 * q\<rfloor> \<and> \<bar>q\<bar> \<le> 2 ^ 33 | _ \<Rightarrow> False)"

text \<open>Every rectangle and every margin of the tree is in pixels.\<close>

fun pixelTree :: "node \<Rightarrow> bool" where
  "pixelTree (Node i cs) = (pixelRect (rect i) \<and> pixel (margin i) \<and> list_all pixelTree cs)"

section \<open>Trees that are not tiled\<close>

text \<open>A node whose children are a column, a row and a column.\<close>

definition mixedAxes :: node where
  "mixedAxes =
     LayoutNode 0 (Number (Fin 0))
       [LayoutNode 1 (Number (Fin (3 / 10))) [], LayoutNode 2 (Number (Fin (- (1 / 2)))) [],
        LayoutNode 3 (Number (Fin 0)) []]"

text \<open>
  Two columns, the first of which holds two columns; the first of these ends at 0.7 of
  the display, beyond the 0.5 at which the column that holds it ends.
\<close>

definition overhang :: node where
  "overhang =
     LayoutNode 0 (Number (Fin 0))
       [LayoutNode 1 (Number (Fin (1 / 2)))
          [LayoutNode 2 (Number (Fin (7 / 10))) [], LayoutNode 3 (Number (Fin 0)) []],
        LayoutNode 4 (Number (Fin 0)) []]"

text \<open>A node whose first child has no percentage.\<close>

definition undefinedRow :: node where
  "undefinedRow =
     LayoutNode 0 (Number (Fin 0)) [LayoutNode 1 Undefined [], LayoutNode 2 (Number (Fin 0)) []]"

section \<open>Auxiliary facts\<close>

lemma info_upd [simp]: "info (upd f n) = f (info n)"
  by (simp add: upd_def)

lemma children_upd [simp]: "children (upd f n) = children n"
  by (simp add: upd_def)

lemma axis_upd_parent: "axis (upd (\<lambda>c. c\<lparr>parent := q\<rparr>) n) = axis n"
  by (simp add: axis_def isColumn_def)

lemma drop_to_last: "xs \<noteq> [] \<Longrightarrow> drop (length xs - 1) xs = [last xs]"
  by (induction xs) (auto simp: drop_Cons')

lemma firstSome_None: "firstSome f cs = None \<Longrightarrow> c \<in> set cs \<Longrightarrow> f c = None"
  by (induction cs) (auto split: option.splits)

lemma int_iff: "(v = of_int \<lfloor>v\<rfloor>) = (v \<in> \<int>)" for v :: real
  by (metis Ints_of_int of_int_floor)

lemma handled_not_None [simp]:
  "OperationResult_handledAndRedraw \<noteq> None" "OperationResult_notHandled = None"
  by (simp_all add: OperationResult_handledAndRedraw_def OperationResult_notHandled_def)

lemma base_handlers [simp]:
  "onButtonPress px py state button this = (None, this)"
  "onButtonRelease px py state button this = (None, this)"
  "onMotion px py state this = (None, this)"
  "onKeyPress px py state key this = (None, this)"
  "onKeyRelease px py state this = (None, this)"
  by (simp_all add: onButtonPress_def onButtonRelease_def onMotion_def onKeyPress_def
        onKeyRelease_def)

lemma jle_Fin [simp]: "jle (Fin u) (Fin v) = (u \<le> v)"
  by (auto simp: jle_def jeq_def)

lemma jge_Fin [simp]: "jge (Fin u) (Fin v) = (v \<le> u)"
  by (simp add: jge_def)

lemma jmax_Fin [simp]: "jmax (Fin u) (Fin v) = Fin (max u v)"
  by (simp add: jmax_def max_def)

lemma jsub_Fin [simp]: "jsub (Fin u) (Fin v) = Fin (u - v)"
  by (simp add: jsub_def)

lemmas number_defs = jge_def jle_def jgt_def jeq_def jsub_def jmax_def jmin_def
lemmas node_defs = axis_def isColumn_def isRow_def isLeaf_def upd_def plain_def fields_def xywh_def
  Let_def

lemma LayoutOf2x2_value:
  "LayoutOf2x2 =
   Node (plain 0 (Number (Fin 0)) None zeroRect)
    [Node (plain 1 (Number (Fin (1 / 2))) (Some 0) zeroRect)
      [Node (plain 2 (Number (Fin (- (1 / 2)))) (Some 1) zeroRect) [],
       Node (plain 3 (Number NInf) (Some 1) zeroRect) []],
     Node (plain 4 (Number PInf) (Some 0) zeroRect)
      [Node (plain 5 (Number (Fin (- (1 / 2)))) (Some 4) zeroRect) [],
       Node (plain 6 (Number NInf) (Some 4) zeroRect) []]]"
  by (simp add: LayoutOf2x2_def LayoutNode_def upd_def axis_def isColumn_def jge_def jle_def
        jeq_def LastNodeXPercentage_def LastNodeYPercentage_def plain_def)

lemma seeded2x2_value:
  "seeded2x2 =
   Node (plain 0 (Number (Fin 0)) None (xywh 0 0 1000 800))
    [Node (plain 1 (Number (Fin (1 / 2))) (Some 0) (xywh 0 0 500 800))
      [Node (plain 2 (Number (Fin (- (1 / 2)))) (Some 1) (xywh 0 0 500 400)) [],
       Node (plain 3 (Number NInf) (Some 1) (xywh 0 400 500 400)) []],
     Node (plain 4 (Number PInf) (Some 0) (xywh 500 0 500 800))
      [Node (plain 5 (Number (Fin (- (1 / 2)))) (Some 4) (xywh 500 0 500 400)) [],
       Node (plain 6 (Number NInf) (Some 4) (xywh 500 400 500 400)) []]]"
  unfolding seeded2x2_def LayoutOf2x2_value
  by (simp add: axis_def isColumn_def jge_def jle_def jeq_def jsub_def Let_def plain_def
        xywh_def)

lemma LayoutOf2x3_value:
  "LayoutOf2x3 =
   Node (plain 0 (Number (Fin 0)) None zeroRect)
    [Node (plain 1 (Number (Fin (1 / 2))) (Some 0) zeroRect)
      [Node (plain 2 (Number (Fin (- (1 / 3)))) (Some 1) zeroRect) [],
       Node (plain 3 (Number (Fin (- (2 / 3)))) (Some 1) zeroRect) [],
       Node (plain 4 (Number NInf) (Some 1) zeroRect) []],
     Node (plain 5 (Number PInf) (Some 0) zeroRect)
      [Node (plain 6 (Number (Fin (- (1 / 3)))) (Some 5) zeroRect) [],
       Node (plain 7 (Number (Fin (- (2 / 3)))) (Some 5) zeroRect) [],
       Node (plain 8 (Number NInf) (Some 5) zeroRect) []]]"
  by (simp add: LayoutOf2x3_def LayoutNode_def LastNodeXPercentage_def LastNodeYPercentage_def
        number_defs node_defs)

lemma seeded2x3_value:
  "seeded2x3 =
   Node (plain 0 (Number (Fin 0)) None (xywh 0 0 1000 900))
    [Node (plain 1 (Number (Fin (1 / 2))) (Some 0) (xywh 0 0 500 900))
      [Node (plain 2 (Number (Fin (- (1 / 3)))) (Some 1) (xywh 0 0 500 300)) [],
       Node (plain 3 (Number (Fin (- (2 / 3)))) (Some 1) (xywh 0 300 500 300)) [],
       Node (plain 4 (Number NInf) (Some 1) (xywh 0 600 500 300)) []],
     Node (plain 5 (Number PInf) (Some 0) (xywh 500 0 500 900))
      [Node (plain 6 (Number (Fin (- (1 / 3)))) (Some 5) (xywh 500 0 500 300)) [],
       Node (plain 7 (Number (Fin (- (2 / 3)))) (Some 5) (xywh 500 300 500 300)) [],
       Node (plain 8 (Number NInf) (Some 5) (xywh 500 600 500 300)) []]]"
  unfolding seeded2x3_def LayoutOf2x3_value
  by (simp add: number_defs node_defs)

lemma delete_last_row_value:
  "Resize_onButtonPress (Fin 250) (Fin 895) 0 BUTTON_SECONDARY (ResizeOperation seeded2x3) =
   (OperationResult_handledAndRedraw,
    \<lparr>tree =
      Node (plain 0 (Number (Fin 0)) None (xywh 0 0 1000 900))
       [Node (plain 1 (Number (Fin (1 / 2))) (Some 0) (xywh 0 0 500 900))
         [Node (plain 2 (Number (Fin (- (1 / 3)))) (Some 1) (xywh 0 0 500 300)) [],
          Node (plain 3 (Number (Fin (- (2 / 3)))) (Some 1) (xywh 0 300 500 600)) []],
        Node (plain 5 (Number PInf) (Some 0) (xywh 500 0 500 900))
         [Node (plain 6 (Number (Fin (- (1 / 3)))) (Some 5) (xywh 500 0 500 300)) [],
          Node (plain 7 (Number (Fin (- (2 / 3)))) (Some 5) (xywh 500 300 500 300)) [],
          Node (plain 8 (Number NInf) (Some 5) (xywh 500 600 500 300)) []]],
     dividerWidth = Fin 20\<rparr>)"
  unfolding seeded2x3_value
  by (simp add: Resize_onButtonPress_def ResizeOperation_def BUTTON_PRIMARY_def
        BUTTON_SECONDARY_def getDividerRect_def indexOf_def findIndex_def splice_def
        number_defs node_defs)

lemma resizing2x2_value:
  "resizing2x2 =
   \<lparr>tree =
     Node (fields 0 (Number (Fin 0)) None (xywh 0 0 1000 800) False False
             (Some (xywh 0 0 1000 800)))
      [Node (fields 1 (Number (Fin (1 / 2))) (Some 0) (xywh 0 0 500 800) True True
               (Some (xywh 0 0 500 800)))
        [Node (fields 2 (Number (Fin (- (1 / 2)))) (Some 1) (xywh 0 0 500 400) False True
                 (Some (xywh 0 0 500 400))) [],
         Node (fields 3 (Number NInf) (Some 1) (xywh 0 400 500 400) False True
                 (Some (xywh 0 400 500 400))) []],
       Node (fields 4 (Number PInf) (Some 0) (xywh 500 0 500 800) False True
               (Some (xywh 500 0 500 800)))
        [Node (fields 5 (Number (Fin (- (1 / 2)))) (Some 4) (xywh 500 0 500 400) False True
                 (Some (xywh 500 0 500 400))) [],
         Node (fields 6 (Number NInf) (Some 4) (xywh 500 400 500 400) False True
                 (Some (xywh 500 400 500 400))) []]],
    dividerWidth = Fin 20\<rparr>"
  unfolding resizing2x2_def seeded2x2_value
  by (simp add: Resize_onButtonPress_def ResizeOperation_def BUTTON_PRIMARY_def
        BUTTON_SECONDARY_def getDividerRect_def Resize_startResizing_def current_def
        number_defs node_defs)

lemma rect_calculateRects [simp]: "rect (info (calculateRects (Some g) displayArg t)) = g"
  by (cases t) (simp add: Let_def)

lemma percentage_calculateRects [simp]:
  "percentage (info (calculateRects given displayArg t)) = percentage (info t)"
  by (cases t) (simp add: Let_def)

lemma axis_calculateRects [simp]: "axis (calculateRects given displayArg t) = axis t"
  by (simp add: axis_def isColumn_def)

lemma jeq_Fin [simp]: "jeq (Fin u) (Fin v) = (u = v)"
  by (auto simp: jeq_def)

lemma xywh_fields [simp]:
  "rx (xywh a b c d) = Fin a" "ry (xywh a b c d) = Fin b"
  "rwidth (xywh a b c d) = Fin c" "rheight (xywh a b c d) = Fin d"
  by (simp_all add: xywh_def)

lemma LayoutNode_nid [simp]: "nid (info (LayoutNode i p cs)) = i"
  by (simp add: LayoutNode_def Let_def)


section \<open>C1: integrity of the tree\<close>

text \<open>A layout that \<open>#loadLayoutFromFile\<close> returns has passed \<open>getIntegrityError\<close>.\<close>

lemma loaded_layout_has_integrity:
  "loadLayoutFromFile content k = Some layout \<Longrightarrow> getIntegrityError layout = None"
  by (auto simp: loadLayoutFromFile_def Let_def split: option.splits)

text \<open>
  C1 does not hold of the code. On the 2x3 layout of \<open>application.js\<close>, laid out on a
  display of 1000 by 900, a press of the secondary button at (250, 895) finds the divider
  of the last row of the first column, the row whose percentage is the sentinel.
  \<open>delete\<close> removes that row, and the row before it, whose percentage is \<open>-2/3\<close>, becomes
  the last child: \<open>getIntegrityError\<close> reports the broken invariant on the tree the
  operation leaves.
\<close>

theorem delete_of_last_child_breaks_integrity:
  "getIntegrityError seeded2x3 = None
   \<and> findDividerAtPosition (Fin 250) (Fin 895) (Fin 20) seeded2x3
       = Some (Node (plain 4 (Number NInf) (Some 1) (xywh 0 600 500 300)) [])
   \<and> fst (Resize_onButtonPress (Fin 250) (Fin 895) 0 BUTTON_SECONDARY
            (ResizeOperation seeded2x3)) = OperationResult_handledAndRedraw
   \<and> getIntegrityError
         (tree (snd (Resize_onButtonPress (Fin 250) (Fin 895) 0 BUTTON_SECONDARY
                       (ResizeOperation seeded2x3))))
       = Some ''broken invariant: last child invalid percentage''"
proof -
  have a: "getIntegrityError seeded2x3 = None"
    unfolding seeded2x3_value by (simp add: number_defs plain_def)
  have b: "findDividerAtPosition (Fin 250) (Fin 895) (Fin 20) seeded2x3
       = Some (Node (plain 4 (Number NInf) (Some 1) (xywh 0 600 500 300)) [])"
    unfolding seeded2x3_value by (simp add: getDividerRect_def number_defs node_defs)
  have c: "getIntegrityError
         (tree (snd (Resize_onButtonPress (Fin 250) (Fin 895) 0 BUTTON_SECONDARY
                       (ResizeOperation seeded2x3))))
       = Some ''broken invariant: last child invalid percentage''"
    unfolding delete_last_row_value by (simp add: number_defs plain_def)
  show ?thesis using a b c unfolding delete_last_row_value by simp
qed

text \<open>
  The divider of a last child can be dragged as well: after a press of the primary button
  at the same point, a motion to (250, 880) gives the last row the percentage of the
  pointer in place of the sentinel, the rectangles do not change, \<open>validateRects\<close>
  accepts them, and the invariant is broken again.
\<close>

lemma drag_of_last_child_breaks_integrity:
  "getIntegrityError
     (tree (snd (Resize_onMotion (Fin 250) (Fin 880) 0
        (snd (Resize_onButtonPress (Fin 250) (Fin 895) 0 BUTTON_PRIMARY
                (ResizeOperation seeded2x3))))))
   = Some ''broken invariant: last child invalid percentage''"
  unfolding seeded2x3_value
  by (simp add: Resize_onButtonPress_def ResizeOperation_def BUTTON_PRIMARY_def
        BUTTON_SECONDARY_def getDividerRect_def Resize_startResizing_def current_def
        Resize_onMotion_def Resize_handleResizing_def number_defs node_defs)


section \<open>C2: the children tile their parent\<close>

lemma finitePercentage_Fin:
  "finitePercentage c \<Longrightarrow> \<exists>q. toNumber (percentage (info c)) = Fin q"
  by (auto simp: finitePercentage_def split: jsval.splits num.splits)

lemma children_consecutive_X:
  assumes "cs \<noteq> []" and "\<forall>c\<in>set cs. axis c = AxisX"
    and "\<forall>c\<in>set (butlast cs). finitePercentage c"
  shows "consecutive AxisX (Fin p)
           (map (\<lambda>c. rect (info c))
              (calculateChildren (xywh a b c d) (xywh da db dc dd) (Fin p, Fin q) cs))
           (Fin (a + c))
         \<and> list_all (\<lambda>k. ry (rect (info k)) = Fin b \<and> rheight (rect (info k)) = Fin d)
             (calculateChildren (xywh a b c d) (xywh da db dc dd) (Fin p, Fin q) cs)"
  using assms
proof (induction cs arbitrary: p)
  case Nil
  then show ?case by simp
next
  case (Cons child rest)
  show ?case
  proof (cases rest)
    case Nil
    then show ?thesis using Cons.prems by (simp add: xywh_def)
  next
    case (Cons nxt more)
    have "finitePercentage child" using Cons.prems(3) Cons by simp
    then obtain pc where pc: "toNumber (percentage (info child)) = Fin pc"
      using finitePercentage_Fin by blast
    have ih: "consecutive AxisX (Fin p')
           (map (\<lambda>c. rect (info c))
              (calculateChildren (xywh a b c d) (xywh da db dc dd) (Fin p', Fin q) rest))
           (Fin (a + c))
         \<and> list_all (\<lambda>k. ry (rect (info k)) = Fin b \<and> rheight (rect (info k)) = Fin d)
             (calculateChildren (xywh a b c d) (xywh da db dc dd) (Fin p', Fin q) rest)" for p'
      using Cons.IH [of p'] Cons.prems Cons by simp
    show ?thesis
      using Cons.prems(2) pc ih Cons by (simp add: xywh_def Let_def)
  qed
qed


lemma children_consecutive_Y:
  assumes "cs \<noteq> []" and "\<forall>c\<in>set cs. axis c = AxisY"
    and "\<forall>c\<in>set (butlast cs). finitePercentage c"
  shows "consecutive AxisY (Fin q)
           (map (\<lambda>c. rect (info c))
              (calculateChildren (xywh a b c d) (xywh da db dc dd) (Fin p, Fin q) cs))
           (Fin (b + d))
         \<and> list_all (\<lambda>k. rx (rect (info k)) = Fin a \<and> rwidth (rect (info k)) = Fin c)
             (calculateChildren (xywh a b c d) (xywh da db dc dd) (Fin p, Fin q) cs)"
  using assms
proof (induction cs arbitrary: q)
  case Nil
  then show ?case by simp
next
  case (Cons child rest)
  show ?case
  proof (cases rest)
    case Nil
    then show ?thesis using Cons.prems by (simp add: xywh_def)
  next
    case (Cons nxt more)
    have "finitePercentage child" using Cons.prems(3) Cons by simp
    then obtain pc where pc: "toNumber (percentage (info child)) = Fin pc"
      using finitePercentage_Fin by blast
    have ih: "consecutive AxisY (Fin q')
           (map (\<lambda>c. rect (info c))
              (calculateChildren (xywh a b c d) (xywh da db dc dd) (Fin p, Fin q') rest))
           (Fin (b + d))
         \<and> list_all (\<lambda>k. rx (rect (info k)) = Fin a \<and> rwidth (rect (info k)) = Fin c)
             (calculateChildren (xywh a b c d) (xywh da db dc dd) (Fin p, Fin q') rest)" for q'
      using Cons.IH [of q'] Cons.prems Cons by simp
    show ?thesis
      using Cons.prems(2) pc ih Cons by (simp add: xywh_def Let_def)
  qed
qed

lemma calculateChildren_axes:
  "map axis (calculateChildren r display prev cs) = map axis cs"
proof (induction cs arbitrary: prev)
  case Nil
  then show ?case by simp
next
  case (Cons child rest)
  then show ?case by (cases rest) (simp_all add: Let_def)
qed

lemma calculateChildren_members:
  assumes "\<forall>c\<in>set (butlast cs). finitePercentage c"
    and "k \<in> set (calculateChildren (xywh a b c d) (xywh da db dc dd) (Fin p, Fin q) cs)"
  shows "\<exists>child\<in>set cs. \<exists>a' b' c' d'.
           k = calculateRects (Some (xywh a' b' c' d')) (Some (xywh da db dc dd)) child"
  using assms
proof (induction cs arbitrary: p q)
  case Nil
  then show ?case by simp
next
  case (Cons child rest)
  show ?case
  proof (cases rest)
    case Nil
    have "\<exists>a' b' c' d'.
           k = calculateRects (Some (xywh a' b' c' d')) (Some (xywh da db dc dd)) child"
    proof (cases "axis child = AxisX")
      case True
      then have "k = calculateRects (Some (xywh p b (a + c - p) d)) (Some (xywh da db dc dd)) child"
        using Cons.prems(2) Nil by (simp add: xywh_def)
      then show ?thesis by blast
    next
      case False
      then have "k = calculateRects (Some (xywh a q c (b + d - q))) (Some (xywh da db dc dd)) child"
        using Cons.prems(2) Nil by (simp add: xywh_def)
      then show ?thesis by blast
    qed
    then show ?thesis by simp
  next
    case (Cons nxt more)
    have "finitePercentage child" using Cons.prems(1) Cons by simp
    then obtain pc where pc: "toNumber (percentage (info child)) = Fin pc"
      using finitePercentage_Fin by blast
    have rest_fin: "\<forall>c\<in>set (butlast rest). finitePercentage c"
      using Cons.prems(1) Cons by simp
    let ?posX = "da + of_int \<lfloor>\<bar>dc * pc\<bar> / 10 + 1 / 2\<rfloor> * 10"
    let ?posY = "db + of_int \<lfloor>\<bar>dd * pc\<bar> / 10 + 1 / 2\<rfloor> * 10"
    show ?thesis
    proof (cases "axis child = AxisX")
      case True
      then have "k = calculateRects (Some (xywh p b (?posX - p) d)) (Some (xywh da db dc dd)) child
          \<or> k \<in> set (calculateChildren (xywh a b c d) (xywh da db dc dd) (Fin ?posX, Fin q) rest)"
        using Cons.prems(2) Cons pc by (simp add: xywh_def Let_def)
      then show ?thesis
      proof
        assume "k = calculateRects (Some (xywh p b (?posX - p) d)) (Some (xywh da db dc dd)) child"
        then show ?thesis by (metis list.set_intros(1))
      next
        assume "k \<in> set (calculateChildren (xywh a b c d) (xywh da db dc dd) (Fin ?posX, Fin q) rest)"
        then show ?thesis using Cons.IH [OF rest_fin] by (metis list.set_intros(2))
      qed
    next
      case False
      then have "k = calculateRects (Some (xywh a q c (?posY - q))) (Some (xywh da db dc dd)) child
          \<or> k \<in> set (calculateChildren (xywh a b c d) (xywh da db dc dd) (Fin p, Fin ?posY) rest)"
        using Cons.prems(2) Cons pc by (simp add: xywh_def Let_def)
      then show ?thesis
      proof
        assume "k = calculateRects (Some (xywh a q c (?posY - q))) (Some (xywh da db dc dd)) child"
        then show ?thesis by (metis list.set_intros(1))
      next
        assume "k \<in> set (calculateChildren (xywh a b c d) (xywh da db dc dd) (Fin p, Fin ?posY) rest)"
        then show ?thesis using Cons.IH [OF rest_fin] by (metis list.set_intros(2))
      qed
    qed
  qed
qed


lemma allTile_calculateRects:
  assumes "sameAxis t" and "finitePercentages t"
    and "displayArg = None \<or> (\<exists>da db dc dd. displayArg = Some (xywh da db dc dd))"
  shows "allTile (calculateRects (Some (xywh a b c d)) displayArg t)"
  using assms
proof (induction t arbitrary: a b c d displayArg)
  case (Node i cs)
  show ?case
  proof (cases "cs = []")
    case True
    then show ?thesis by (simp add: Let_def)
  next
    case False
    obtain da db dc dd where
      display: "(case displayArg of None \<Rightarrow> xywh a b c d | Some g \<Rightarrow> g) = xywh da db dc dd"
      using Node.prems(3) by (cases displayArg) auto
    let ?kids = "calculateChildren (xywh a b c d) (xywh da db dc dd) (Fin a, Fin b) cs"
    let ?i = "i\<lparr>rect := xywh a b c d\<rparr>"
    have result: "calculateRects (Some (xywh a b c d)) displayArg (Node i cs) = Node ?i ?kids"
      using False display by (simp add: Let_def)
    have axes: "map axis ?kids = map axis cs" by (rule calculateChildren_axes)
    then have len: "length ?kids = length cs" by (metis length_map)
    then have kids_ne: "?kids \<noteq> []" using False by auto
    have hd_axis: "axis (hd ?kids) = axis (hd cs)"
      using axes kids_ne False by (metis hd_map)
    have same: "\<forall>k\<in>set cs. axis k = axis (hd cs)"
      using Node.prems(1) by (simp add: list_all_iff)
    have fin: "\<forall>k\<in>set (butlast cs). finitePercentage k"
      using Node.prems(2) by (simp add: list_all_iff)
    have tile: "tiles (axis (hd cs)) (Node ?i ?kids)"
    proof (cases "axis (hd cs)")
      case AxisX
      then have "\<forall>k\<in>set cs. axis k = AxisX" using same by simp
      then show ?thesis
        using children_consecutive_X [OF False _ fin,
            where p = a and q = b and a = a and b = b and c = c and d = d
              and da = da and db = db and dc = dc and dd = dd] AxisX
        by (simp add: tiles_def list_all_iff)
    next
      case AxisY
      then have "\<forall>k\<in>set cs. axis k = AxisY" using same by simp
      then show ?thesis
        using children_consecutive_Y [OF False _ fin,
            where p = a and q = b and a = a and b = b and c = c and d = d
              and da = da and db = db and dc = dc and dd = dd] AxisY
        by (simp add: tiles_def list_all_iff)
    qed
    have kids_tile: "\<forall>k\<in>set ?kids. allTile k"
    proof
      fix k assume kin: "k \<in> set ?kids"
      obtain child a' b' c' d' where
        child: "child \<in> set cs"
        and k: "k = calculateRects (Some (xywh a' b' c' d')) (Some (xywh da db dc dd)) child"
        using calculateChildren_members [OF fin kin] by blast
      have "sameAxis child" "finitePercentages child"
        using child Node.prems(1,2) by (simp_all add: list_all_iff)
      then show "allTile k" unfolding k using Node.IH [OF child] by blast
    qed
    show ?thesis
      unfolding result using kids_ne hd_axis tile kids_tile by (simp add: list_all_iff)
  qed
qed

lemma positive_calculateRects:
  assumes "finitePercentages t"
    and "displayArg = None \<or> (\<exists>da db dc dd. displayArg = Some (xywh da db dc dd))"
    and "validateRects (calculateRects (Some (xywh a b c d)) displayArg t)"
  shows "positiveRects (calculateRects (Some (xywh a b c d)) displayArg t)"
  using assms
proof (induction t arbitrary: a b c d displayArg)
  case (Node i cs)
  show ?case
  proof (cases "cs = []")
    case True
    then show ?thesis using Node.prems(3) by (simp add: Let_def xywh_def split: if_splits)
  next
    case False
    obtain da db dc dd where
      display: "(case displayArg of None \<Rightarrow> xywh a b c d | Some g \<Rightarrow> g) = xywh da db dc dd"
      using Node.prems(2) by (cases displayArg) auto
    let ?kids = "calculateChildren (xywh a b c d) (xywh da db dc dd) (Fin a, Fin b) cs"
    let ?i = "i\<lparr>rect := xywh a b c d\<rparr>"
    have result: "calculateRects (Some (xywh a b c d)) displayArg (Node i cs) = Node ?i ?kids"
      using False display by (simp add: Let_def)
    have fin: "\<forall>k\<in>set (butlast cs). finitePercentage k"
      using Node.prems(1) by (simp add: list_all_iff)
    have valid: "100 < c" "100 < d" "\<forall>k\<in>set ?kids. validateRects k"
      using Node.prems(3) unfolding result
      by (simp_all add: xywh_def list_all_iff split: if_splits)
    have "\<forall>k\<in>set ?kids. positiveRects k"
    proof
      fix k assume kin: "k \<in> set ?kids"
      obtain child a' b' c' d' where
        child: "child \<in> set cs"
        and k: "k = calculateRects (Some (xywh a' b' c' d')) (Some (xywh da db dc dd)) child"
        using calculateChildren_members [OF fin kin] by blast
      have "finitePercentages child" using child Node.prems(1) by (simp add: list_all_iff)
      moreover have "validateRects k" using valid(3) kin by blast
      ultimately show "positiveRects k" unfolding k using Node.IH [OF child] by blast
    qed
    then show ?thesis unfolding result using valid(1,2) by (simp add: xywh_def list_all_iff)
  qed
qed

text \<open>
  On a display in pixels every rectangle that \<open>calculateRects\<close> computes is framed by
  edges: an edge is the \<open>x\<close> or \<open>y\<close> of the display plus a multiple of 10 that is at
  most 5 more than the length of the display, as the percentage of a child that passes
  \<open>getIntegrityError\<close> is between -1 and 1.
\<close>

lemma edge_pos:
  fixes da dc pc :: real
  assumes "da \<in> \<int>" and "\<bar>da\<bar> \<le> 2 ^ 31" and "\<bar>dc\<bar> \<le> 2 ^ 31" and "\<bar>pc\<bar> \<le> 1"
  shows "edge (da + of_int \<lfloor>\<bar>dc * pc\<bar> / 10 + 1 / 2\<rfloor> * 10)"
proof -
  let ?z = "\<bar>dc * pc\<bar>"
  let ?k = "\<lfloor>?z / 10 + 1 / 2\<rfloor>"
  have z: "?z \<le> 2 ^ 31"
  proof -
    have "?z = \<bar>dc\<bar> * \<bar>pc\<bar>" by (simp add: abs_mult)
    also have "\<dots> \<le> \<bar>dc\<bar> * 1" using assms(4) by (intro mult_left_mono) simp_all
    finally show ?thesis using assms(3) by simp
  qed
  have k0: "0 \<le> ?k" by simp
  have k1: "of_int ?k \<le> ?z / 10 + 1 / 2" by (rule of_int_floor_le)
  have "(of_int ?k :: real) * 10 \<le> ?z + 5" using k1 by linarith
  moreover have "0 \<le> (of_int ?k :: real) * 10" using k0 by simp
  moreover have "?z \<le> 2147483648" "\<bar>da\<bar> \<le> 2147483648" using z assms(2) by simp_all
  ultimately have "\<bar>da + of_int ?k * 10\<bar> \<le> 4294967301" by linarith
  then have "\<bar>da + of_int ?k * 10\<bar> \<le> 2 ^ 32 + 5" by simp
  moreover have "da + of_int ?k * 10 \<in> \<int>" using assms(1) by (intro Ints_add Ints_mult) simp_all
  ultimately show ?thesis by (simp add: edge_def int_iff)
qed

lemma integrity_of_children:
  assumes "getIntegrityError (Node i cs) = None"
  shows "\<forall>c\<in>set cs. getIntegrityError c = None"
    and "\<forall>c\<in>set (butlast cs). \<not> jlt (toNumber (percentage (info c))) (Fin (- 1))
            \<and> \<not> jgt (toNumber (percentage (info c))) (Fin 1)"
  using assms
  by (auto simp: list_ex_iff butlast_conv_take split: if_splits dest: firstSome_None)

lemma percentage_bounded:
  assumes "finitePercentage c"
    and "\<not> jlt (toNumber (percentage (info c))) (Fin (- 1))
         \<and> \<not> jgt (toNumber (percentage (info c))) (Fin 1)"
  shows "\<exists>pc. toNumber (percentage (info c)) = Fin pc \<and> \<bar>pc\<bar> \<le> 1"
  using assms
  by (auto simp: finitePercentage_def jgt_def split: jsval.splits num.splits)

lemma framed_whole:
  assumes "framed a b c d"
  shows "whole (Fin a) \<and> whole (Fin b) \<and> whole (Fin c) \<and> whole (Fin d)"
proof -
  have ints: "a \<in> \<int>" "b \<in> \<int>" "a + c \<in> \<int>" "b + d \<in> \<int>"
    using assms by (simp_all add: framed_def edge_def int_iff)
  have bounds: "\<bar>a\<bar> \<le> 4294967301" "\<bar>b\<bar> \<le> 4294967301" "\<bar>a + c\<bar> \<le> 4294967301"
    "\<bar>b + d\<bar> \<le> 4294967301"
    using assms by (simp_all add: framed_def edge_def)
  have "a + c - a \<in> \<int>" "b + d - b \<in> \<int>" using ints by (intro Ints_diff; simp)+
  then have cd: "c \<in> \<int>" "d \<in> \<int>" by simp_all
  have "\<bar>c\<bar> \<le> 17179869184" "\<bar>d\<bar> \<le> 17179869184" "\<bar>a\<bar> \<le> 17179869184" "\<bar>b\<bar> \<le> 17179869184"
    using bounds by linarith+
  then show ?thesis using ints cd by (simp add: whole_def int_iff)
qed

lemma pixelRect_framed:
  assumes "pixelRect (xywh a b c d)"
  shows "framed a b c d"
proof -
  have ints: "a \<in> \<int>" "b \<in> \<int>" "c \<in> \<int>" "d \<in> \<int>"
    using assms by (simp_all add: pixelRect_def pixel_def int_iff)
  have bounds: "\<bar>a\<bar> \<le> 2147483648" "\<bar>b\<bar> \<le> 2147483648" "\<bar>c\<bar> \<le> 2147483648"
    "\<bar>d\<bar> \<le> 2147483648"
    using assms by (simp_all add: pixelRect_def pixel_def)
  have "\<bar>a\<bar> \<le> 4294967301" "\<bar>b\<bar> \<le> 4294967301" "\<bar>a + c\<bar> \<le> 4294967301"
    "\<bar>b + d\<bar> \<le> 4294967301"
    using bounds by linarith+
  moreover have "a + c \<in> \<int>" "b + d \<in> \<int>" using ints by (intro Ints_add; simp)+
  ultimately show ?thesis using ints by (simp add: framed_def edge_def int_iff)
qed

lemma calculateChildren_framed:
  assumes "\<forall>c\<in>set (butlast cs). \<exists>pc. toNumber (percentage (info c)) = Fin pc \<and> \<bar>pc\<bar> \<le> 1"
    and "pixelRect (xywh da db dc dd)" and "framed a b c d" and "edge p" and "edge q"
    and "k \<in> set (calculateChildren (xywh a b c d) (xywh da db dc dd) (Fin p, Fin q) cs)"
  shows "\<exists>child\<in>set cs. \<exists>a' b' c' d'. framed a' b' c' d' \<and>
           k = calculateRects (Some (xywh a' b' c' d')) (Some (xywh da db dc dd)) child"
  using assms
proof (induction cs arbitrary: p q)
  case Nil
  then show ?case by simp
next
  case (Cons child rest)
  have fr: "edge a" "edge b" "edge (a + c)" "edge (b + d)"
    using Cons.prems(3) by (simp_all add: framed_def)
  have dpx: "da \<in> \<int>" "db \<in> \<int>" "\<bar>da\<bar> \<le> 2 ^ 31" "\<bar>db\<bar> \<le> 2 ^ 31" "\<bar>dc\<bar> \<le> 2 ^ 31"
    "\<bar>dd\<bar> \<le> 2 ^ 31"
    using Cons.prems(2) by (simp_all add: pixelRect_def pixel_def int_iff)
  show ?case
  proof (cases rest)
    case Nil
    have "\<exists>a' b' c' d'. framed a' b' c' d' \<and>
           k = calculateRects (Some (xywh a' b' c' d')) (Some (xywh da db dc dd)) child"
    proof (cases "axis child = AxisX")
      case True
      then have "k = calculateRects (Some (xywh p b (a + c - p) d)) (Some (xywh da db dc dd)) child"
        using Cons.prems(6) Nil by (simp add: xywh_def)
      moreover have "framed p b (a + c - p) d"
        using fr Cons.prems(4) by (simp add: framed_def)
      ultimately show ?thesis by blast
    next
      case False
      then have "k = calculateRects (Some (xywh a q c (b + d - q))) (Some (xywh da db dc dd)) child"
        using Cons.prems(6) Nil by (simp add: xywh_def)
      moreover have "framed a q c (b + d - q)"
        using fr Cons.prems(5) by (simp add: framed_def)
      ultimately show ?thesis by blast
    qed
    then show ?thesis by simp
  next
    case (Cons nxt more)
    obtain pc where pc: "toNumber (percentage (info child)) = Fin pc" and pc1: "\<bar>pc\<bar> \<le> 1"
      using Cons.prems(1) Cons by auto
    have rest_fin: "\<forall>c\<in>set (butlast rest). \<exists>pc. toNumber (percentage (info c)) = Fin pc \<and> \<bar>pc\<bar> \<le> 1"
      using Cons.prems(1) Cons by simp
    let ?posX = "da + of_int \<lfloor>\<bar>dc * pc\<bar> / 10 + 1 / 2\<rfloor> * 10"
    let ?posY = "db + of_int \<lfloor>\<bar>dd * pc\<bar> / 10 + 1 / 2\<rfloor> * 10"
    have ex: "edge ?posX" by (rule edge_pos [OF dpx(1) dpx(3) dpx(5) pc1])
    have ey: "edge ?posY" by (rule edge_pos [OF dpx(2) dpx(4) dpx(6) pc1])
    show ?thesis
    proof (cases "axis child = AxisX")
      case True
      then have "k = calculateRects (Some (xywh p b (?posX - p) d)) (Some (xywh da db dc dd)) child
          \<or> k \<in> set (calculateChildren (xywh a b c d) (xywh da db dc dd) (Fin ?posX, Fin q) rest)"
        using Cons.prems(6) Cons pc by (simp add: xywh_def Let_def)
      then show ?thesis
      proof
        assume "k = calculateRects (Some (xywh p b (?posX - p) d)) (Some (xywh da db dc dd)) child"
        moreover have "framed p b (?posX - p) d"
          using fr Cons.prems(4) ex by (simp add: framed_def)
        ultimately show ?thesis by (metis list.set_intros(1))
      next
        assume "k \<in> set (calculateChildren (xywh a b c d) (xywh da db dc dd) (Fin ?posX, Fin q) rest)"
        then show ?thesis
          using Cons.IH [OF rest_fin Cons.prems(2) Cons.prems(3) ex Cons.prems(5)]
          by (metis list.set_intros(2))
      qed
    next
      case False
      then have "k = calculateRects (Some (xywh a q c (?posY - q))) (Some (xywh da db dc dd)) child
          \<or> k \<in> set (calculateChildren (xywh a b c d) (xywh da db dc dd) (Fin p, Fin ?posY) rest)"
        using Cons.prems(6) Cons pc by (simp add: xywh_def Let_def)
      then show ?thesis
      proof
        assume "k = calculateRects (Some (xywh a q c (?posY - q))) (Some (xywh da db dc dd)) child"
        moreover have "framed a q c (?posY - q)"
          using fr Cons.prems(5) ey by (simp add: framed_def)
        ultimately show ?thesis by (metis list.set_intros(1))
      next
        assume "k \<in> set (calculateChildren (xywh a b c d) (xywh da db dc dd) (Fin p, Fin ?posY) rest)"
        then show ?thesis
          using Cons.IH [OF rest_fin Cons.prems(2) Cons.prems(3) Cons.prems(4) ey]
          by (metis list.set_intros(2))
      qed
    qed
  qed
qed

lemma wholeRects_calculateRects:
  assumes "getIntegrityError t = None" and "finitePercentages t"
    and "pixelRect (xywh da db dc dd)" and "framed a b c d"
  shows "wholeRects (calculateRects (Some (xywh a b c d)) (Some (xywh da db dc dd)) t)"
  using assms
proof (induction t arbitrary: a b c d)
  case (Node i cs)
  have w: "whole (Fin a) \<and> whole (Fin b) \<and> whole (Fin c) \<and> whole (Fin d)"
    by (rule framed_whole [OF Node.prems(4)])
  show ?case
  proof (cases "cs = []")
    case True
    then show ?thesis using w by (simp add: Let_def)
  next
    case False
    let ?kids = "calculateChildren (xywh a b c d) (xywh da db dc dd) (Fin a, Fin b) cs"
    let ?i = "i\<lparr>rect := xywh a b c d\<rparr>"
    have result: "calculateRects (Some (xywh a b c d)) (Some (xywh da db dc dd)) (Node i cs)
        = Node ?i ?kids"
      using False by (simp add: Let_def)
    have fin: "\<forall>k\<in>set (butlast cs). finitePercentage k"
      using Node.prems(2) by (simp add: list_all_iff)
    have bounded: "\<forall>c\<in>set (butlast cs). \<exists>pc. toNumber (percentage (info c)) = Fin pc \<and> \<bar>pc\<bar> \<le> 1"
      using fin integrity_of_children(2) [OF Node.prems(1)] percentage_bounded by blast
    have ea: "edge a" "edge b" using Node.prems(4) by (simp_all add: framed_def)
    have "\<forall>k\<in>set ?kids. wholeRects k"
    proof
      fix k assume kin: "k \<in> set ?kids"
      obtain child a' b' c' d' where
        child: "child \<in> set cs" and fr: "framed a' b' c' d'"
        and k: "k = calculateRects (Some (xywh a' b' c' d')) (Some (xywh da db dc dd)) child"
        using calculateChildren_framed [OF bounded Node.prems(3) Node.prems(4) ea kin] by blast
      have "getIntegrityError child = None"
        using integrity_of_children(1) [OF Node.prems(1)] child by blast
      moreover have "finitePercentages child"
        using child Node.prems(2) by (simp add: list_all_iff)
      ultimately show "wholeRects k"
        unfolding k using Node.IH [OF child _ _ Node.prems(3) fr] by blast
    qed
    then show ?thesis unfolding result using w by (simp add: list_all_iff)
  qed
qed

lemma calculateRects_display:
  "calculateRects (Some r) None t = calculateRects (Some r) (Some r) t"
  by (cases t) (simp add: Let_def)

text \<open>
  C2, as the claim states it, fails. The tree \<open>mixedAxes\<close> passes \<open>getIntegrityError\<close>;
  its second child is a row between two columns and is laid out over the full width, so
  the children tile the root along neither axis. The tree \<open>overhang\<close> passes
  \<open>getIntegrityError\<close> too, its children are on one axis at every node and all its
  percentages are numbers. A percentage is a fraction of the display, not of the parent:
  the first column ends at 500, the column at 0.7 inside it is 700 wide, wider than the
  column that holds it and over the second column of the root, and the last child inside
  it starts at 700 with a width of -200.
\<close>

theorem tiling_counterexample:
  "getIntegrityError mixedAxes = None
   \<and> rect (info (children (calculateRects (Some (xywh 0 0 1000 800)) None mixedAxes) ! 0))
       = xywh 0 0 300 800
   \<and> rect (info (children (calculateRects (Some (xywh 0 0 1000 800)) None mixedAxes) ! 1))
       = xywh 0 0 1000 400
   \<and> rect (info (children (calculateRects (Some (xywh 0 0 1000 800)) None mixedAxes) ! 2))
       = xywh 300 0 700 800
   \<and> \<not> tiles AxisX (calculateRects (Some (xywh 0 0 1000 800)) None mixedAxes)
   \<and> \<not> tiles AxisY (calculateRects (Some (xywh 0 0 1000 800)) None mixedAxes)
   \<and> getIntegrityError overhang = None \<and> sameAxis overhang \<and> finitePercentages overhang
   \<and> rect (info (children (calculateRects (Some (xywh 0 0 1000 800)) None overhang) ! 0))
       = xywh 0 0 500 800
   \<and> rect (info (children (calculateRects (Some (xywh 0 0 1000 800)) None overhang) ! 1))
       = xywh 500 0 500 800
   \<and> rect (info (children
         (children (calculateRects (Some (xywh 0 0 1000 800)) None overhang) ! 0) ! 0))
       = xywh 0 0 700 800
   \<and> rect (info (children
         (children (calculateRects (Some (xywh 0 0 1000 800)) None overhang) ! 0) ! 1))
       = xywh 700 0 (- 200) 800
   \<and> \<not> positiveRects (calculateRects (Some (xywh 0 0 1000 800)) None overhang)"
proof -
  have m: "mixedAxes =
     Node (plain 0 (Number (Fin 0)) None zeroRect)
       [Node (plain 1 (Number (Fin (3 / 10))) (Some 0) zeroRect) [],
        Node (plain 2 (Number (Fin (- (1 / 2)))) (Some 0) zeroRect) [],
        Node (plain 3 (Number PInf) (Some 0) zeroRect) []]"
    by (simp add: mixedAxes_def LayoutNode_def LastNodeXPercentage_def LastNodeYPercentage_def
          number_defs node_defs)
  have o: "overhang =
     Node (plain 0 (Number (Fin 0)) None zeroRect)
       [Node (plain 1 (Number (Fin (1 / 2))) (Some 0) zeroRect)
          [Node (plain 2 (Number (Fin (7 / 10))) (Some 1) zeroRect) [],
           Node (plain 3 (Number PInf) (Some 1) zeroRect) []],
        Node (plain 4 (Number PInf) (Some 0) zeroRect) []]"
    by (simp add: overhang_def LayoutNode_def LastNodeXPercentage_def LastNodeYPercentage_def
          number_defs node_defs)
  have mr: "calculateRects (Some (xywh 0 0 1000 800)) None mixedAxes =
     Node (plain 0 (Number (Fin 0)) None (xywh 0 0 1000 800))
       [Node (plain 1 (Number (Fin (3 / 10))) (Some 0) (xywh 0 0 300 800)) [],
        Node (plain 2 (Number (Fin (- (1 / 2)))) (Some 0) (xywh 0 0 1000 400)) [],
        Node (plain 3 (Number PInf) (Some 0) (xywh 300 0 700 800)) []]"
    unfolding m by (simp add: number_defs node_defs)
  have or: "calculateRects (Some (xywh 0 0 1000 800)) None overhang =
     Node (plain 0 (Number (Fin 0)) None (xywh 0 0 1000 800))
       [Node (plain 1 (Number (Fin (1 / 2))) (Some 0) (xywh 0 0 500 800))
          [Node (plain 2 (Number (Fin (7 / 10))) (Some 1) (xywh 0 0 700 800)) [],
           Node (plain 3 (Number PInf) (Some 1) (xywh 700 0 (- 200) 800)) []],
        Node (plain 4 (Number PInf) (Some 0) (xywh 500 0 500 800)) []]"
    unfolding o by (simp add: number_defs node_defs)
  have a: "getIntegrityError mixedAxes = None"
    unfolding m by (simp add: plain_def number_defs)
  have b: "getIntegrityError overhang = None"
    unfolding o by (simp add: plain_def number_defs)
  have c: "\<not> tiles AxisX (calculateRects (Some (xywh 0 0 1000 800)) None mixedAxes)"
    "\<not> tiles AxisY (calculateRects (Some (xywh 0 0 1000 800)) None mixedAxes)"
    unfolding mr by (simp_all add: tiles_def plain_def)
  have d: "sameAxis overhang"
    unfolding o by (simp add: plain_def axis_def isColumn_def number_defs)
  have e: "finitePercentages overhang"
    unfolding o by (simp add: plain_def finitePercentage_def)
  have f: "\<not> positiveRects (calculateRects (Some (xywh 0 0 1000 800)) None overhang)"
    unfolding or by (simp add: plain_def)
  show ?thesis using a b c d e f unfolding mr or by (simp add: plain_def)
qed

text \<open>
  A child without a percentage passes \<open>getIntegrityError\<close> as well, although the check
  there is commented as the check that every child but the last has a percentage: it
  compares with \<open>null\<close>, and the percentage of a node made without one is \<open>undefined\<close>.
  The rectangles computed from it are NaN.
\<close>

lemma undefined_percentage_passes_integrity:
  "getIntegrityError undefinedRow = None
   \<and> rheight (rect (info (children
         (calculateRects (Some (xywh 0 0 1000 800)) None undefinedRow) ! 0))) = NaN
   \<and> rheight (rect (info (children
         (calculateRects (Some (xywh 0 0 1000 800)) None undefinedRow) ! 1))) = NaN"
proof -
  have u: "undefinedRow =
     Node (plain 0 (Number (Fin 0)) None zeroRect)
       [Node (plain 1 Undefined (Some 0) zeroRect) [],
        Node (plain 2 (Number NInf) (Some 0) zeroRect) []]"
    by (simp add: undefinedRow_def LayoutNode_def LastNodeXPercentage_def
          LastNodeYPercentage_def number_defs node_defs)
  show ?thesis unfolding u by (simp add: number_defs node_defs)
qed

text \<open>
  C2, amended. Let a tree pass \<open>getIntegrityError\<close>, let the children of each of its
  internal nodes be on one axis, and let every child but the last have a finite number as
  its percentage. After \<open>calculateRects\<close> with a rectangle in pixels (\<open>x\<close>, \<open>y\<close>, \<open>width\<close>
  and \<open>height\<close> are integers of magnitude at most \<open>2^31\<close>), at every internal node the
  spans of the children along that axis are consecutive: the first child starts at the
  near edge of the parent, each child starts where the one before it ends, and the last
  child ends at the far edge of the parent; in the other dimension every child starts
  where the parent starts and is as long as the parent. Every \<open>x\<close>, \<open>y\<close>, \<open>width\<close> and
  \<open>height\<close> of the result is an integer of magnitude at most \<open>2^34\<close>, so the sums and
  differences of the statement are those of double arithmetic, which is exact on
  integers below \<open>2^53\<close>. An extent has a sign: it is negative where an edge lies before
  the edge it follows. When \<open>validateRects\<close> accepts the result, every width and height
  is positive, so the spans neither leave a gap nor overlap.
\<close>

theorem children_tile_parent:
  assumes "getIntegrityError t = None" and "sameAxis t" and "finitePercentages t"
    and "pixelRect r"
  shows "wholeRects (calculateRects (Some r) None t)
         \<and> allTile (calculateRects (Some r) None t)
         \<and> (validateRects (calculateRects (Some r) None t) \<longrightarrow>
              positiveRects (calculateRects (Some r) None t))"
proof -
  obtain a b c d where r: "r = xywh a b c d"
    using assms(4) by (cases r) (auto simp: pixelRect_def pixel_def xywh_def split: num.splits)
  have px: "pixelRect (xywh a b c d)" using assms(4) r by simp
  have "wholeRects (calculateRects (Some (xywh a b c d)) (Some (xywh a b c d)) t)"
    by (rule wholeRects_calculateRects [OF assms(1) assms(3) px pixelRect_framed [OF px]])
  then have "wholeRects (calculateRects (Some r) None t)"
    unfolding r calculateRects_display .
  then show ?thesis
    unfolding r
    using assms(2,3) allTile_calculateRects [of t None a b c d]
      positive_calculateRects [of t None a b c d]
    by blast
qed

theorem children_tile_parent_witness:
  "getIntegrityError LayoutOf2x2 = None \<and> sameAxis LayoutOf2x2 \<and> finitePercentages LayoutOf2x2
   \<and> pixelRect (xywh 0 0 1000 800)
   \<and> validateRects seeded2x2 \<and> wholeRects seeded2x2 \<and> allTile seeded2x2
   \<and> positiveRects seeded2x2"
proof -
  have h1: "getIntegrityError LayoutOf2x2 = None"
    unfolding LayoutOf2x2_value by (simp add: plain_def number_defs)
  have h2: "sameAxis LayoutOf2x2"
    unfolding LayoutOf2x2_value by (simp add: plain_def axis_def isColumn_def number_defs)
  have h3: "finitePercentages LayoutOf2x2"
    unfolding LayoutOf2x2_value by (simp add: plain_def finitePercentage_def)
  have h4: "pixelRect (xywh 0 0 1000 800)"
    by (simp add: pixelRect_def pixel_def)
  have v: "validateRects seeded2x2"
    unfolding seeded2x2_value by (simp add: plain_def)
  show ?thesis
    using h1 h2 h3 h4 v children_tile_parent [OF h1 h2 h3 h4]
    by (simp add: seeded2x2_def)
qed

section \<open>C3: the round trip through JSON\<close>

lemma integrity_children:
  assumes "getIntegrityError t = None" and "c \<in> set (children t)"
  shows "wireSafe (percentage (info c)) \<and> getIntegrityError c = None"
proof (cases t)
  case (Node i cs)
  have c: "c \<in> set cs" using assms(2) Node by simp
  then have ne: "cs \<noteq> []" by auto
  have l1: "length cs \<noteq> 1" and
    a: "\<not> list_ex (\<lambda>c. percentage (info c) = Null
                           \<or> jlt (toNumber (percentage (info c))) (Fin (- 1))
                           \<or> jgt (toNumber (percentage (info c))) (Fin 1))
                (take (length cs - 1) cs)" and
    b: "\<not> list_ex (\<lambda>c. percentage (info c) \<noteq> Number PInf
                           \<and> percentage (info c) \<noteq> Number NInf)
                (drop (length cs - 1) cs)" and
    r: "firstSome getIntegrityError cs = None"
    using assms(1) Node by (auto split: if_splits)
  have "c \<in> set (take (length cs - 1) cs) \<or> c \<in> set (drop (length cs - 1) cs)"
    using c by (metis append_take_drop_id set_append Un_iff)
  then have "wireSafe (percentage (info c))"
  proof
    assume "c \<in> set (take (length cs - 1) cs)"
    then have "percentage (info c) \<noteq> Null"
      "\<not> jlt (toNumber (percentage (info c))) (Fin (- 1))"
      "\<not> jgt (toNumber (percentage (info c))) (Fin 1)"
      using a by (auto simp: list_ex_iff)
    then show ?thesis
      by (auto simp: wireSafe_def LastNodeXPercentageJson_def LastNodeYPercentageJson_def
            jgt_def)
  next
    assume "c \<in> set (drop (length cs - 1) cs)"
    then have "percentage (info c) = Number PInf \<or> percentage (info c) = Number NInf"
      using b by (auto simp: list_ex_iff)
    then show ?thesis
      by (auto simp: wireSafe_def LastNodeXPercentageJson_def LastNodeYPercentageJson_def)
  qed
  moreover have "getIntegrityError c = None" using r c by (rule firstSome_None)
  ultimately show ?thesis by simp
qed

lemma integrity_wireSafeTree:
  "getIntegrityError t = None \<Longrightarrow> wireSafe (percentage (info t)) \<Longrightarrow> wireSafeTree t"
proof (induction t)
  case (Node i cs)
  have "\<forall>c\<in>set cs. wireSafeTree c"
  proof
    fix c assume c: "c \<in> set cs"
    then have "wireSafe (percentage (info c)) \<and> getIntegrityError c = None"
      using integrity_children [OF Node.prems(1), of c] by simp
    then show "wireSafeTree c" using Node.IH c by blast
  qed
  then show ?case using Node.prems(2) by (simp add: list_all_iff)
qed

lemma fromJSON_toJSON_shape:
  "wireSafeTree t \<Longrightarrow> children this = [] \<Longrightarrow> margin (info this) = Fin 0
     \<Longrightarrow> shapeOf (fst (fromJSON (toJSON t) this k)) = shapeOf t"
proof (induction t arbitrary: this k)
  case (Node i cs)
  have kids: "map shapeOf (fst (childrenFromJSON (map toJSON xs) q j)) = map shapeOf xs"
    if "set xs \<subseteq> set cs" for xs q j
    using that
  proof (induction xs arbitrary: j)
    case Nil
    then show ?case by simp
  next
    case (Cons c xs)
    let ?child = "upd (\<lambda>c. c\<lparr>parent := Some q\<rparr>) (LayoutNode j Undefined [])"
    have c: "c \<in> set cs" and w: "wireSafeTree c"
      using Cons.prems Node.prems(1) by (auto simp: list_all_iff)
    have "children ?child = []" "margin (info ?child) = Fin 0"
      by (simp_all add: LayoutNode_def)
    then have "shapeOf (fst (fromJSON (toJSON c) ?child (Suc j))) = shapeOf c"
      using Node.IH [OF c w] by blast
    moreover have "map shapeOf (fst (childrenFromJSON (map toJSON xs) q j')) = map shapeOf xs"
      for j' using Cons.IH Cons.prems by simp
    ultimately show ?case
      by (simp split: prod.splits) (metis fst_conv)
  qed
  have safe: "wireSafe (percentage i)" using Node.prems(1) by simp
  obtain ir where i: "info this = ir" by simp
  show ?case
  proof (cases "cs = []")
    case True
    then show ?thesis using safe Node.prems(2,3)
      by (cases this)
         (auto simp: wireSafe_def LastNodeXPercentage_def LastNodeYPercentage_def
            LastNodeXPercentageJson_def LastNodeYPercentageJson_def)
  next
    case False
    then show ?thesis using safe Node.prems(2,3) kids [of cs "nid (info this)" k]
      by (cases this)
         (auto simp: wireSafe_def LastNodeXPercentage_def LastNodeYPercentage_def
            LastNodeXPercentageJson_def LastNodeYPercentageJson_def split: prod.splits)
  qed
qed

text \<open>
  C3, as the claim states it, fails at the root, whose percentage no invariant
  constrains: a leaf with percentage 99999 passes \<open>getIntegrityError\<close>, is written as
  99999 and read back as \<open>+\<infinity>\<close>; a leaf with percentage \<open>null\<close> is written without
  the key and read back as \<open>undefined\<close>.
\<close>

theorem toJSON_fromJSON_counterexample:
  "getIntegrityError (LayoutNode 0 (Number (Fin 99999)) []) = None
   \<and> percentage (info (LayoutNode 0 (Number (Fin 99999)) [])) = Number (Fin 99999)
   \<and> percentage (info (fst (fromJSON (toJSON (LayoutNode 0 (Number (Fin 99999)) []))
         (LayoutNode 1 Undefined []) 2))) = Number PInf
   \<and> getIntegrityError (LayoutNode 0 Null []) = None
   \<and> percentage (info (LayoutNode 0 Null [])) = Null
   \<and> percentage (info (fst (fromJSON (toJSON (LayoutNode 0 Null []))
         (LayoutNode 1 Undefined []) 2))) = Undefined"
  by (simp add: LayoutNode_def LastNodeXPercentage_def LastNodeYPercentage_def
        LastNodeXPercentageJson_def LastNodeYPercentageJson_def)

text \<open>
  C3, amended. For every tree that passes \<open>getIntegrityError\<close> and whose root percentage
  is not \<open>null\<close>, 99999 or -99999, \<open>fromJSON\<close> on a new node applied to the output of
  \<open>toJSON\<close> gives a tree with the same children shape, the same percentage and the same
  margin at every node. A node with the sentinel \<open>+\<infinity>\<close> is written with 99999 and one
  with \<open>-\<infinity>\<close> with -99999. A node with margin 0 is written without the key
  \<open>margin\<close>, as is a node whose margin was never set.
\<close>

theorem toJSON_fromJSON_round_trip:
  assumes "getIntegrityError t = None"
    and "percentage (info t) \<noteq> Null"
    and "percentage (info t) \<noteq> Number (Fin 99999)"
    and "percentage (info t) \<noteq> Number (Fin (- 99999))"
  shows "shapeOf (fst (fromJSON (toJSON t) (LayoutNode k Undefined []) (Suc k))) = shapeOf t
     \<and> (percentage (info n) = Number PInf \<longrightarrow> jpercentage (toJSON n) = Number (Fin 99999))
     \<and> (percentage (info n) = Number NInf \<longrightarrow> jpercentage (toJSON n) = Number (Fin (- 99999)))
     \<and> (margin (info n) = Fin 0 \<longrightarrow> jmargin (toJSON n) = None)
     \<and> jmargin (toJSON (LayoutNode i p cs)) = None"
proof -
  have "wireSafe (percentage (info t))"
    using assms(2-4)
    by (simp add: wireSafe_def LastNodeXPercentageJson_def LastNodeYPercentageJson_def)
  then have "wireSafeTree t" using assms(1) by (simp add: integrity_wireSafeTree)
  moreover have "children (LayoutNode k Undefined []) = []"
    "margin (info (LayoutNode k Undefined [])) = Fin 0"
    by (simp_all add: LayoutNode_def)
  ultimately have a:
    "shapeOf (fst (fromJSON (toJSON t) (LayoutNode k Undefined []) (Suc k))) = shapeOf t"
    by (rule fromJSON_toJSON_shape)
  have b: "(percentage (info n) = Number PInf \<longrightarrow> jpercentage (toJSON n) = Number (Fin 99999))
     \<and> (percentage (info n) = Number NInf \<longrightarrow> jpercentage (toJSON n) = Number (Fin (- 99999)))
     \<and> (margin (info n) = Fin 0 \<longrightarrow> jmargin (toJSON n) = None)"
    by (cases n)
       (simp add: LastNodeXPercentage_def LastNodeYPercentage_def
          LastNodeXPercentageJson_def LastNodeYPercentageJson_def)
  have c: "jmargin (toJSON (LayoutNode i p cs)) = None"
    by (simp add: LayoutNode_def Let_def)
  show ?thesis using a b c by blast
qed

theorem toJSON_fromJSON_round_trip_witness:
  "getIntegrityError LayoutOf2x2 = None
   \<and> percentage (info LayoutOf2x2) = Number (Fin 0)
   \<and> shapeOf (fst (fromJSON (toJSON LayoutOf2x2) (LayoutNode 7 Undefined []) 8))
       = shapeOf LayoutOf2x2
   \<and> jpercentage (toJSON (children LayoutOf2x2 ! 1)) = Number (Fin 99999)"
proof -
  have h1: "getIntegrityError LayoutOf2x2 = None"
    unfolding LayoutOf2x2_value by (simp add: plain_def number_defs)
  have h2: "percentage (info LayoutOf2x2) = Number (Fin 0)"
    unfolding LayoutOf2x2_value by (simp add: plain_def)
  have h3: "percentage (info (children LayoutOf2x2 ! 1)) = Number PInf"
    unfolding LayoutOf2x2_value by (simp add: plain_def)
  show ?thesis
    using h1 h2 h3 toJSON_fromJSON_round_trip [of LayoutOf2x2 7 "children LayoutOf2x2 ! 1"]
    by simp
qed


section \<open>C4: divider hit-testing\<close>

lemma find_append_cases:
  "find P (xs @ ys) = (case find P xs of None \<Rightarrow> find P ys | Some x \<Rightarrow> Some x)"
  by (induction xs) auto

lemma firstSome_find_concat:
  assumes "\<And>c. c \<in> set cs \<Longrightarrow> f c = find P (g c)"
  shows "firstSome f cs = find P (concat (map g cs))"
  using assms
  by (induction cs) (auto simp: find_append_cases split: option.splits)

lemma findDividerAtPosition_preorder:
  "findDividerAtPosition px py dw t =
     find (\<lambda>n. contains (getDividerRect dw n) px py) (preorder t)"
proof (induction t)
  case (Node i cs)
  have "firstSome (findDividerAtPosition px py dw) cs =
          find (\<lambda>n. contains (getDividerRect dw n) px py) (concat (map preorder cs))"
    by (rule firstSome_find_concat) (rule Node.IH)
  then show ?case by (simp add: contains_def Let_def)
qed

lemma column_divider_band:
  assumes "axis n = AxisX" and "rect (info n) = xywh a b c d" and "margin (info n) = Fin m"
  shows "contains (getDividerRect (Fin w) n) (Fin x) (Fin y) =
           (\<bar>x - (a + c)\<bar> \<le> max w (2 * m) / 2 \<and> b \<le> y \<and> y \<le> b + d)"
proof -
  let ?W = "max w (2 * m)"
  have "contains (getDividerRect (Fin w) n) (Fin x) (Fin y) =
          (a + c - ?W / 2 \<le> x \<and> x \<le> a + c - ?W / 2 + ?W \<and> b \<le> y \<and> y \<le> b + d)"
    using assms by (simp add: contains_def getDividerRect_def Let_def xywh_def)
  also have "\<dots> = (\<bar>x - (a + c)\<bar> \<le> ?W / 2 \<and> b \<le> y \<and> y \<le> b + d)"
  proof -
    have "(a + c - W / 2 \<le> x \<and> x \<le> a + c - W / 2 + W) = (\<bar>x - (a + c)\<bar> \<le> W / 2)" for W :: real
      by (cases "a + c \<le> x") (simp_all add: abs_if, linarith+)
    then show ?thesis by blast
  qed
  finally show ?thesis .
qed

text \<open>
  For a node with a rectangle and a margin in pixels and a divider width in pixels, the
  edges of the divider rectangle, which are what a point is compared with, are multiples
  of 1/2 of magnitude at most \<open>2^33\<close>: double arithmetic computes them without rounding.
\<close>

lemma pixel_Fin: "pixel v \<Longrightarrow> \<exists>q. v = Fin q \<and> q \<in> \<int> \<and> \<bar>q\<bar> \<le> 2147483648"
  by (cases v) (simp_all add: pixel_def int_iff)

lemma half_Fin: "2 * q \<in> \<int> \<Longrightarrow> \<bar>q\<bar> \<le> 8589934592 \<Longrightarrow> half (Fin q)"
  by (simp add: half_def int_iff)

lemma getDividerRect_halves:
  assumes "pixelRect (rect (info n))" and "pixel (margin (info n))" and "pixel dw"
  shows "half (rx (getDividerRect dw n)) \<and> half (ry (getDividerRect dw n))
         \<and> half (jadd (rx (getDividerRect dw n)) (rwidth (getDividerRect dw n)))
         \<and> half (jadd (ry (getDividerRect dw n)) (rheight (getDividerRect dw n)))"
proof -
  obtain a where a: "rx (rect (info n)) = Fin a" "a \<in> \<int>" "\<bar>a\<bar> \<le> 2147483648"
    using assms(1) pixel_Fin unfolding pixelRect_def by blast
  obtain b where b: "ry (rect (info n)) = Fin b" "b \<in> \<int>" "\<bar>b\<bar> \<le> 2147483648"
    using assms(1) pixel_Fin unfolding pixelRect_def by blast
  obtain c where c: "rwidth (rect (info n)) = Fin c" "c \<in> \<int>" "\<bar>c\<bar> \<le> 2147483648"
    using assms(1) pixel_Fin unfolding pixelRect_def by blast
  obtain d where d: "rheight (rect (info n)) = Fin d" "d \<in> \<int>" "\<bar>d\<bar> \<le> 2147483648"
    using assms(1) pixel_Fin unfolding pixelRect_def by blast
  obtain m where m: "margin (info n) = Fin m" "m \<in> \<int>" "\<bar>m\<bar> \<le> 2147483648"
    using assms(2) pixel_Fin by blast
  obtain w where w: "dw = Fin w" "w \<in> \<int>" "\<bar>w\<bar> \<le> 2147483648"
    using assms(3) pixel_Fin by blast
  define W where "W = max w (2 * m)"
  have "2 * m \<in> \<int>" using m(2) by (intro Ints_mult) simp_all
  then have W1: "W \<in> \<int>" using w(2) by (simp add: W_def max_def)
  have W2: "\<bar>W\<bar> \<le> 4294967296" unfolding W_def using w(3) m(3) by linarith
  have e1: "2 * (a + c - W / 2) = 2 * a + 2 * c - W" "2 * (b + d - W / 2) = 2 * b + 2 * d - W"
    "2 * (a + c - W / 2 + W) = 2 * a + 2 * c + W" "2 * (b + d - W / 2 + W) = 2 * b + 2 * d + W"
    by (simp_all add: field_simps)
  have i0: "2 * a \<in> \<int>" "2 * b \<in> \<int>" "2 * c \<in> \<int>" "2 * d \<in> \<int>"
    using a(2) b(2) c(2) d(2) by (intro Ints_mult; simp)+
  have i1: "2 * (a + c - W / 2) \<in> \<int>" "2 * (b + d - W / 2) \<in> \<int>"
    "2 * (a + c - W / 2 + W) \<in> \<int>" "2 * (b + d - W / 2 + W) \<in> \<int>"
    unfolding e1 using i0 W1 by (simp_all add: Ints_add Ints_diff)
  have i2: "\<bar>a + c - W / 2\<bar> \<le> 8589934592" "\<bar>b + d - W / 2\<bar> \<le> 8589934592"
    "\<bar>a + c - W / 2 + W\<bar> \<le> 8589934592" "\<bar>b + d - W / 2 + W\<bar> \<le> 8589934592"
    "\<bar>a\<bar> \<le> 8589934592" "\<bar>b\<bar> \<le> 8589934592"
    using a(3) b(3) c(3) d(3) W2 by linarith+
  have h: "half (Fin (a + c - W / 2))" "half (Fin (b + d - W / 2))"
    "half (Fin (a + c - W / 2 + W))" "half (Fin (b + d - W / 2 + W))"
    "half (Fin a)" "half (Fin b)"
    using i0 i1 i2 by (simp_all add: half_Fin)
  have dr: "getDividerRect dw n =
      (if axis n = AxisX
       then \<lparr>rx = Fin (a + c - W / 2), ry = Fin b, rwidth = Fin W, rheight = Fin d\<rparr>
       else \<lparr>rx = Fin a, ry = Fin (b + d - W / 2), rwidth = Fin c, rheight = Fin W\<rparr>)"
    using a(1) b(1) c(1) d(1) m(1) w(1)
    by (cases "axis n") (simp_all add: getDividerRect_def Let_def W_def)
  have s: "half (Fin (a + c))" "half (Fin (b + d))"
  proof -
    have "2 * (a + c) = 2 * a + 2 * c" "2 * (b + d) = 2 * b + 2 * d" by simp_all
    then have "2 * (a + c) \<in> \<int>" "2 * (b + d) \<in> \<int>" using i0 by simp_all
    moreover have "\<bar>a + c\<bar> \<le> 8589934592" "\<bar>b + d\<bar> \<le> 8589934592"
      using a(3) b(3) c(3) d(3) by linarith+
    ultimately show "half (Fin (a + c))" "half (Fin (b + d))" by (simp_all add: half_Fin)
  qed
  show ?thesis unfolding dr using h s by simp
qed

text \<open>
  C4, as the claim states it, fails on the seeded 2x2 layout with a divider width of 20.
  The first child of the root is a column node whose right edge is at x = 500. The divider
  rectangle is centred on that edge and is 20 wide, so it reaches 10 to either side: the
  point (515, 200) is within 20 of the edge and within the node's height, and no node is
  matched.
\<close>

theorem findDividerAtPosition_counterexample:
  "axis (children seeded2x2 ! 0) = AxisX
   \<and> rect (info (children seeded2x2 ! 0)) = xywh 0 0 500 800
   \<and> margin (info (children seeded2x2 ! 0)) = Fin 0
   \<and> \<bar>515 - (0 + 500)\<bar> \<le> (20 :: real) \<and> (0 :: real) \<le> 200 \<and> (200 :: real) \<le> 0 + 800
   \<and> findDividerAtPosition (Fin 515) (Fin 200) (Fin 20) seeded2x2 = None"
  unfolding seeded2x2_value
  by (simp add: getDividerRect_def number_defs node_defs)

text \<open>
  The last branch of \<open>getDividerRect\<close>, commented "root node has no divider", is never
  taken: \<open>axis()\<close> returns one of the two axes for every node. The root is a column node
  like any other, with its right edge at the right edge of the display, and
  \<open>findDividerAtPosition\<close> returns it for a point on that edge.
\<close>

lemma root_divider_is_matched:
  "isRoot seeded2x2
   \<and> findDividerAtPosition (Fin 995) (Fin 400) (Fin 20) seeded2x2 = Some seeded2x2"
  unfolding seeded2x2_value
  by (simp add: getDividerRect_def isRoot_def number_defs node_defs)

text \<open>
  C4, amended. Let every rectangle and margin of the tree and the divider width be in
  pixels (integers of magnitude at most \<open>2^31\<close>), so that the edges of every divider
  rectangle are computed without rounding. When the divider rectangle of the node the
  search starts at does not contain the point, \<open>findDividerAtPosition\<close> returns the first
  node below it, in pre-order, whose divider rectangle contains the point, and \<open>null\<close>
  when there is none. For a node on the x axis that is not a root, with a rectangle,
  a margin and a divider width in pixels, the divider rectangle contains a point
  \<open>(x, y)\<close> of finite coordinates exactly when \<open>x\<close> is at most half of
  \<open>max(dividerWidth, 2 * margin)\<close> away from the right edge of the node and \<open>y\<close> is
  within the node's height, edges included.
  Nothing is stated about a root.
\<close>

theorem findDividerAtPosition_first_in_preorder:
  "(pixelTree t \<and> pixel dw \<and> \<not> contains (getDividerRect dw t) px py \<longrightarrow>
      findDividerAtPosition px py dw t =
        find (\<lambda>n. contains (getDividerRect dw n) px py) (concat (map preorder (children t))))
   \<and> (\<not> isRoot n \<and> axis n = AxisX \<and> rect (info n) = xywh a b c d \<and> pixelRect (xywh a b c d)
       \<and> margin (info n) = Fin m \<and> pixel (Fin m) \<and> pixel (Fin w) \<longrightarrow>
      contains (getDividerRect (Fin w) n) (Fin x) (Fin y) =
        (\<bar>x - (a + c)\<bar> \<le> max w (2 * m) / 2 \<and> b \<le> y \<and> y \<le> b + d))"
proof -
  have "findDividerAtPosition px py dw t =
          find (\<lambda>n. contains (getDividerRect dw n) px py) (preorder t)"
    by (rule findDividerAtPosition_preorder)
  then have "\<not> contains (getDividerRect dw t) px py \<longrightarrow>
      findDividerAtPosition px py dw t =
        find (\<lambda>n. contains (getDividerRect dw n) px py) (concat (map preorder (children t)))"
    by (cases t) simp
  then show ?thesis using column_divider_band by blast
qed

theorem findDividerAtPosition_first_in_preorder_witness:
  "pixelTree seeded2x2 \<and> pixel (Fin 20)
   \<and> \<not> contains (getDividerRect (Fin 20) seeded2x2) (Fin 505) (Fin 200)
   \<and> \<not> isRoot (children seeded2x2 ! 0)
   \<and> axis (children seeded2x2 ! 0) = AxisX
   \<and> rect (info (children seeded2x2 ! 0)) = xywh 0 0 500 800
   \<and> pixelRect (xywh 0 0 500 800)
   \<and> margin (info (children seeded2x2 ! 0)) = Fin 0
   \<and> pixel (Fin 0)
   \<and> find (\<lambda>n. contains (getDividerRect (Fin 20) n) (Fin 505) (Fin 200))
         (concat (map preorder (children seeded2x2))) = Some (children seeded2x2 ! 0)
   \<and> findDividerAtPosition (Fin 505) (Fin 200) (Fin 20) seeded2x2
       = Some (children seeded2x2 ! 0)
   \<and> contains (getDividerRect (Fin 20) (children seeded2x2 ! 0)) (Fin 505) (Fin 200)"
proof -
  have h0: "pixelTree seeded2x2 \<and> pixel (Fin 20) \<and> pixel (Fin 0) \<and> pixelRect (xywh 0 0 500 800)"
    unfolding seeded2x2_value by (simp add: pixelRect_def pixel_def plain_def)
  have h1: "\<not> contains (getDividerRect (Fin 20) seeded2x2) (Fin 505) (Fin 200)"
    unfolding seeded2x2_value
    by (simp add: contains_def getDividerRect_def number_defs node_defs)
  have h2: "\<not> isRoot (children seeded2x2 ! 0)
      \<and> axis (children seeded2x2 ! 0) = AxisX
      \<and> rect (info (children seeded2x2 ! 0)) = xywh 0 0 500 800
      \<and> margin (info (children seeded2x2 ! 0)) = Fin 0"
    unfolding seeded2x2_value
    by (simp add: number_defs axis_def isColumn_def isRoot_def plain_def)
  have f: "find (\<lambda>n. contains (getDividerRect (Fin 20) n) (Fin 505) (Fin 200))
         (concat (map preorder (children seeded2x2))) = Some (children seeded2x2 ! 0)"
    unfolding seeded2x2_value
    by (simp add: contains_def getDividerRect_def number_defs node_defs)
  show ?thesis
    using h0 h1 h2 f
      findDividerAtPosition_first_in_preorder
        [where t = seeded2x2 and dw = "Fin 20" and px = "Fin 505" and py = "Fin 200"
           and n = "children seeded2x2 ! 0" and a = 0 and b = 0 and c = 500 and d = 800
           and m = 0 and w = 20 and x = 505 and y = 200]
    by simp
qed

section \<open>C5: preset shortcuts\<close>

text \<open>
  C5, as the claim states it, fails: with an empty preset list the key \<open>1\<close> calls the
  callback, with \<open>undefined\<close> as its argument.
\<close>

theorem presetShortcut_absent_slot_counterexample:
  "element ([] :: node list) 0 = None
   \<and> PresetShortcut_onKeyPress (Fin 0) (Fin 0) 0 KEY_1
       \<lparr>tree = LayoutOf2x2, presets = [], onUsePreset = recordCall\<rparr> []
     = (OperationResult_handledAndRedraw, [None])"
  by (simp add: PresetShortcut_onKeyPress_def element_def recordCall_def)

text \<open>
  C5, amended. Each of the eight keys calls the callback once, with the entry of the
  preset list at the key's index, or with \<open>undefined\<close> when the list has no such entry,
  and the key is reported handled. Any other key is reported unhandled and the callback
  is not called.
\<close>

theorem presetShortcut_onKeyPress_calls_callback:
  "(k < 8 \<longrightarrow>
      PresetShortcut_onKeyPress px py state (presetKeys ! k) this w =
        (OperationResult_handledAndRedraw, onUsePreset this (element (presets this) k) w)
      \<and> (k < length (presets this) \<longrightarrow> element (presets this) k = Some (presets this ! k))
      \<and> (length (presets this) \<le> k \<longrightarrow> element (presets this) k = None))
   \<and> (key \<notin> set presetKeys \<longrightarrow>
      PresetShortcut_onKeyPress px py state key this w = (OperationResult_notHandled, w))"
proof -
  have keys: "k < 8 \<Longrightarrow> k = 0 \<or> k = 1 \<or> k = 2 \<or> k = 3 \<or> k = 4 \<or> k = 5 \<or> k = 6 \<or> k = 7"
    by arith
  have a: "k < 8 \<longrightarrow>
      PresetShortcut_onKeyPress px py state (presetKeys ! k) this w =
        (OperationResult_handledAndRedraw, onUsePreset this (element (presets this) k) w)"
  proof
    assume "k < 8"
    then consider "k = 0" | "k = 1" | "k = 2" | "k = 3" | "k = 4" | "k = 5" | "k = 6" | "k = 7"
      using keys by blast
    then show "PresetShortcut_onKeyPress px py state (presetKeys ! k) this w =
        (OperationResult_handledAndRedraw, onUsePreset this (element (presets this) k) w)"
      by cases
         (simp_all add: PresetShortcut_onKeyPress_def presetKeys_def KEY_1_def KEY_2_def
            KEY_3_def KEY_4_def KEY_5_def KEY_6_def KEY_7_def KEY_8_def)
  qed
  have b: "key \<notin> set presetKeys \<longrightarrow>
      PresetShortcut_onKeyPress px py state key this w = (OperationResult_notHandled, w)"
    by (simp add: PresetShortcut_onKeyPress_def presetKeys_def)
  show ?thesis using a b by (simp add: element_def)
qed

theorem presetShortcut_onKeyPress_calls_callback_witness:
  "(2 :: nat) < 8 \<and> (2 :: nat) < length [LayoutOf2x2, LayoutOf2x3, LayoutOf2x2]
   \<and> (97 :: nat) \<notin> set presetKeys
   \<and> PresetShortcut_onKeyPress (Fin 0) (Fin 0) 0 KEY_3
       \<lparr>tree = LayoutOf2x2, presets = [LayoutOf2x2, LayoutOf2x3, LayoutOf2x2],
        onUsePreset = recordCall\<rparr> []
     = (OperationResult_handledAndRedraw, [Some LayoutOf2x2])
   \<and> PresetShortcut_onKeyPress (Fin 0) (Fin 0) 0 97
       \<lparr>tree = LayoutOf2x2, presets = [LayoutOf2x2, LayoutOf2x3, LayoutOf2x2],
        onUsePreset = recordCall\<rparr> []
     = (OperationResult_notHandled, [])"
  using presetShortcut_onKeyPress_calls_callback
    [of 2 "Fin 0" "Fin 0" 0
        "\<lparr>tree = LayoutOf2x2, presets = [LayoutOf2x2, LayoutOf2x3, LayoutOf2x2],
          onUsePreset = recordCall\<rparr>" "[]" 97]
  by (simp add: presetKeys_def recordCall_def KEY_1_def KEY_2_def
        KEY_3_def KEY_4_def KEY_5_def KEY_6_def KEY_7_def KEY_8_def)


section \<open>C6: a rejected resize\<close>

text \<open>
  C6. On the 2x2 layout laid out on (0, 0, 1000, 800), with the divider of the root's
  first child being resized, a motion to x = 50 asks for the percentage 0.05. The
  rectangles for it give the leaves of the first column a width of 50, and
  \<open>validateRects\<close> rejects them. After the motion the operation is what it was before:
  the percentage of the first child is 0.5 and every rectangle is as before.
\<close>

theorem resize_below_minimum_is_rejected:
  "map (\<lambda>c. percentage (info c)) (children (tree resizing2x2))
     = [Number (Fin (1 / 2)), Number PInf]
   \<and> map (\<lambda>n. nid (info n))
         (case findNode (\<lambda>n. isResizing (info n) = True) (tree resizing2x2) of
            None \<Rightarrow> [] | Some n \<Rightarrow> [n]) = [1]
   \<and> jdiv (jsub (Fin 50) (rx (rect (info (tree resizing2x2)))))
         (rwidth (rect (info (tree resizing2x2)))) = Fin (5 / 100)
   \<and> map (\<lambda>c. rwidth (rect (info c)))
         (children (children (calculateRects None None
            (assign 1 (upd (\<lambda>n. n\<lparr>percentage := Number (Fin (5 / 100))\<rparr>))
               (tree resizing2x2))) ! 0))
       = [Fin 50, Fin 50]
   \<and> \<not> validateRects (calculateRects None None
         (assign 1 (upd (\<lambda>n. n\<lparr>percentage := Number (Fin (5 / 100))\<rparr>)) (tree resizing2x2)))
   \<and> Resize_onMotion (Fin 50) (Fin 200) 0 resizing2x2
       = (OperationResult_handledAndRedraw, resizing2x2)
   \<and> map (\<lambda>c. percentage (info c))
         (children (tree (snd (Resize_onMotion (Fin 50) (Fin 200) 0 resizing2x2))))
       = [Number (Fin (1 / 2)), Number PInf]"
proof -
  have a: "map (\<lambda>c. percentage (info c)) (children (tree resizing2x2))
     = [Number (Fin (1 / 2)), Number PInf]"
    unfolding resizing2x2_value by (simp add: fields_def)
  have b: "map (\<lambda>n. nid (info n))
         (case findNode (\<lambda>n. isResizing (info n) = True) (tree resizing2x2) of
            None \<Rightarrow> [] | Some n \<Rightarrow> [n]) = [1]"
    unfolding resizing2x2_value by (simp add: fields_def)
  have c: "jdiv (jsub (Fin 50) (rx (rect (info (tree resizing2x2)))))
         (rwidth (rect (info (tree resizing2x2)))) = Fin (5 / 100)"
    unfolding resizing2x2_value by (simp add: number_defs node_defs)
  have d: "map (\<lambda>c. rwidth (rect (info c)))
         (children (children (calculateRects None None
            (assign 1 (upd (\<lambda>n. n\<lparr>percentage := Number (Fin (5 / 100))\<rparr>))
               (tree resizing2x2))) ! 0))
       = [Fin 50, Fin 50]"
    unfolding resizing2x2_value by (simp add: number_defs node_defs)
  have e: "\<not> validateRects (calculateRects None None
         (assign 1 (upd (\<lambda>n. n\<lparr>percentage := Number (Fin (5 / 100))\<rparr>)) (tree resizing2x2)))"
    unfolding resizing2x2_value by (simp add: number_defs node_defs)
  have f: "Resize_onMotion (Fin 50) (Fin 200) 0 resizing2x2
       = (OperationResult_handledAndRedraw, resizing2x2)"
    unfolding resizing2x2_value
    by (simp add: Resize_onMotion_def Resize_handleResizing_def number_defs node_defs)
  show ?thesis using a b c d e f by simp
qed


section \<open>C7: insertChild keeps the order\<close>

lemma findIndexFrom_takeWhile:
  "findIndexFrom k P cs =
     (if \<exists>c\<in>set cs. P c then k + int (length (takeWhile (\<lambda>c. \<not> P c) cs)) else - 1)"
  by (induction cs arbitrary: k) auto

lemma splice_findIndex:
  assumes "\<exists>c\<in>set cs. P c"
  shows "splice (findIndex P cs) 0 [x] cs =
           takeWhile (\<lambda>c. \<not> P c) cs @ x # dropWhile (\<lambda>c. \<not> P c) cs"
proof -
  let ?n = "length (takeWhile (\<lambda>c. \<not> P c) cs)"
  have "findIndexFrom 0 P cs = 0 + int ?n"
    using assms by (subst findIndexFrom_takeWhile) (simp only: if_True)
  then have i: "findIndex P cs = int ?n"
    by (simp add: findIndex_def)
  have le: "?n \<le> length cs" by (rule length_takeWhile_le)
  have t: "take ?n cs = takeWhile (\<lambda>c. \<not> P c) cs"
    by (rule takeWhile_eq_take [symmetric])
  have d: "drop ?n cs = dropWhile (\<lambda>c. \<not> P c) cs"
    by (rule dropWhile_eq_drop [symmetric])
  show ?thesis
    unfolding i splice_def Let_def using le t d by simp
qed

lemma jle_trans: "jle a b \<Longrightarrow> jle b c \<Longrightarrow> jle a c"
  by (cases a; cases b; cases c) (auto simp: jle_def jeq_def)

lemma not_jgt_jle: "\<not> jgt a (Fin q) \<Longrightarrow> jle a b \<Longrightarrow> jle a (Fin q)"
  by (cases a; cases b) (auto simp: jle_def jeq_def jgt_def)

lemma jgt_jle: "jgt a b \<Longrightarrow> jle b a"
  by (simp add: jgt_def jle_def)

lemma absPercentage_upd_parent [simp]:
  "absPercentage (upd (\<lambda>c. c\<lparr>parent := q\<rparr>) n) = absPercentage n"
  by (simp add: absPercentage_def upd_def)

lemma insertChild_noop:
  "indexOf child (children this) \<noteq> - 1
   \<or> percentage (info child) = Number PInf \<or> percentage (info child) = Number NInf
   \<Longrightarrow> insertChild child this = this"
  by (auto simp: insertChild_def insertInto_def LastNodeXPercentage_def LastNodeYPercentage_def)

lemma insertChild_info [simp]: "info (insertChild child this) = info this"
  by (simp add: insertChild_def insertInto_def Let_def)

lemma sentinel_abs:
  "endsWithSentinel cs \<Longrightarrow> absPercentage (last cs) = PInf"
  by (auto simp: endsWithSentinel_def absPercentage_def)

lemma insertChild_children:
  assumes s: "endsWithSentinel (children this)"
    and c: "percentage (info child) = Number (Fin q)"
    and n: "indexOf child (children this) = - 1"
  shows "children (insertChild child this) =
           takeWhile (\<lambda>c. \<not> jgt (absPercentage c) (Fin \<bar>q\<bar>)) (children this)
           @ upd (\<lambda>c. c\<lparr>parent := Some (nid (info this))\<rparr>) child
           # dropWhile (\<lambda>c. \<not> jgt (absPercentage c) (Fin \<bar>q\<bar>)) (children this)"
proof -
  have l: "last (children this) \<in> set (children this)"
    using s by (simp add: endsWithSentinel_def)
  have "jgt (absPercentage (last (children this))) (Fin \<bar>q\<bar>)"
    using sentinel_abs [OF s] by (simp add: jgt_def)
  then have ex: "\<exists>c\<in>set (children this). jgt (absPercentage c) (Fin \<bar>q\<bar>)"
    using l by blast
  have a: "jabs (toNumber (percentage (info (upd (\<lambda>c. c\<lparr>parent := Some (nid (info this))\<rparr>) child))))
             = Fin \<bar>q\<bar>"
    using c by (simp add: upd_def)
  show ?thesis
    using n c splice_findIndex [OF ex]
    by (simp add: insertChild_def insertInto_def Let_def a LastNodeXPercentage_def LastNodeYPercentage_def
          absPercentage_def)
qed


lemma last_insert_before: "ys \<noteq> [] \<Longrightarrow> last (xs @ x # ys) = last ys"
  by simp

lemma insertChild_step:
  assumes a: "ascending (children this)"
    and s: "endsWithSentinel (children this)"
    and c: "percentage (info child) = Number (Fin q)"
  shows "ascending (children (insertChild child this))
         \<and> endsWithSentinel (children (insertChild child this))"
proof (cases "indexOf child (children this) = - 1")
  case False
  then have "insertChild child this = this" by (simp add: insertChild_noop)
  then show ?thesis using a s by simp
next
  case True
  let ?P = "\<lambda>c. \<not> jgt (absPercentage c) (Fin \<bar>q\<bar>)"
  let ?cs = "children this"
  let ?x = "upd (\<lambda>c. c\<lparr>parent := Some (nid (info this))\<rparr>) child"
  let ?ord = "\<lambda>a b. jle (absPercentage a) (absPercentage b)"
  have ch: "children (insertChild child this) = takeWhile ?P ?cs @ ?x # dropWhile ?P ?cs"
    using insertChild_children [OF s c True] .
  have split: "?cs = takeWhile ?P ?cs @ dropWhile ?P ?cs" by simp
  have "sorted_wrt ?ord (takeWhile ?P ?cs @ dropWhile ?P ?cs)"
    using a by (simp add: ascending_def)
  then have parts: "sorted_wrt ?ord (takeWhile ?P ?cs) \<and> sorted_wrt ?ord (dropWhile ?P ?cs)
      \<and> (\<forall>b\<in>set (takeWhile ?P ?cs). \<forall>d\<in>set (dropWhile ?P ?cs). ?ord b d)"
    unfolding sorted_wrt_append by blast
  have s1: "sorted_wrt ?ord (takeWhile ?P ?cs)" and s2: "sorted_wrt ?ord (dropWhile ?P ?cs)"
    and s3: "\<forall>b\<in>set (takeWhile ?P ?cs). \<forall>d\<in>set (dropWhile ?P ?cs). ?ord b d"
    using parts by blast+
  have lastcs: "last ?cs \<in> set ?cs" using s by (simp add: endsWithSentinel_def)
  have "\<not> ?P (last ?cs)" using sentinel_abs [OF s] by (simp add: jgt_def)
  then have dne: "dropWhile ?P ?cs \<noteq> []" using lastcs by (simp add: dropWhile_eq_Nil_conv) blast
  have ax: "absPercentage ?x = Fin \<bar>q\<bar>" using c by (simp add: absPercentage_def upd_def)
  have hd_gt: "jgt (absPercentage (hd (dropWhile ?P ?cs))) (Fin \<bar>q\<bar>)"
    using dne hd_dropWhile [of ?P ?cs] by blast
  have before: "\<forall>b\<in>set (takeWhile ?P ?cs). ?ord b ?x"
  proof
    fix b assume b: "b \<in> set (takeWhile ?P ?cs)"
    have "hd (dropWhile ?P ?cs) \<in> set (dropWhile ?P ?cs)" using dne by simp
    then have "?ord b (hd (dropWhile ?P ?cs))"
      using s3 b by blast
    moreover have "?P b" using b by (rule set_takeWhileD [THEN conjunct2])
    ultimately show "?ord b ?x" unfolding ax by (rule not_jgt_jle [rotated])
  qed
  have after: "\<forall>d\<in>set (dropWhile ?P ?cs). ?ord ?x d"
  proof
    fix d assume d: "d \<in> set (dropWhile ?P ?cs)"
    obtain h t where ht: "dropWhile ?P ?cs = h # t" using dne by (cases "dropWhile ?P ?cs") auto
    have h: "jle (Fin \<bar>q\<bar>) (absPercentage h)" using hd_gt ht by (simp add: jgt_jle)
    have st: "sorted_wrt ?ord (h # t)" using s2 ht by simp
    show "?ord ?x d"
    proof (cases "d = h")
      case True then show ?thesis using h ax by simp
    next
      case False
      then have "d \<in> set t" using d ht by simp
      then have "?ord h d" using st by simp
      then show ?thesis using h ax jle_trans by metis
    qed
  qed
  have asc: "ascending (children (insertChild child this))"
    unfolding ch ascending_def using s1 s2 s3 before after
    by (simp add: sorted_wrt_append)
  have "last (takeWhile ?P ?cs @ ?x # dropWhile ?P ?cs) = last (dropWhile ?P ?cs)"
    using dne by (rule last_insert_before)
  also have "\<dots> = last ?cs" using dne split by (metis last_appendR)
  finally have "endsWithSentinel (children (insertChild child this))"
    unfolding ch using s by (simp add: endsWithSentinel_def)
  then show ?thesis using asc by simp
qed

lemma insertChild_fold_ordered:
  assumes "ascending (children this)" "endsWithSentinel (children this)"
    and "\<forall>c\<in>set cs. \<exists>q. percentage (info c) = Number (Fin q)"
  shows "ascending (children (fold insertChild cs this))
         \<and> endsWithSentinel (children (fold insertChild cs this))"
  using assms
proof (induction cs arbitrary: this)
  case Nil
  then show ?case by simp
next
  case (Cons c cs)
  obtain q where q: "percentage (info c) = Number (Fin q)" using Cons.prems(3) by auto
  have "ascending (children (insertChild c this)) \<and> endsWithSentinel (children (insertChild c this))"
    using insertChild_step [OF Cons.prems(1) Cons.prems(2) q] .
  then show ?case using Cons.IH [of "insertChild c this"] Cons.prems(3) by simp
qed


lemma set_splice_insert: "set (splice k 0 [x] cs) = insert x (set cs)"
proof -
  have "set (take n cs) \<union> set (drop n cs) = set cs" for n
    by (metis append_take_drop_id set_append)
  then show ?thesis by (auto simp: splice_def Let_def)
qed

lemma insertChild_set:
  "set (children (insertChild child this)) = set (children this)
   \<or> set (children (insertChild child this)) =
        insert (upd (\<lambda>c. c\<lparr>parent := Some (nid (info this))\<rparr>) child) (set (children this))"
  by (simp add: insertChild_def insertInto_def Let_def set_splice_insert)

lemma indexOf_absent:
  "(indexOf child cs = - 1) = (\<forall>y\<in>set cs. nid (info y) \<noteq> nid (info child))"
  unfolding indexOf_def findIndex_def by (subst findIndexFrom_takeWhile) auto

lemma insertChild_set_new:
  assumes "\<forall>y\<in>set (children this). nid (info y) \<noteq> nid (info child)"
    and "percentage (info child) = Number (Fin q)"
  shows "set (children (insertChild child this)) =
           insert (upd (\<lambda>c. c\<lparr>parent := Some (nid (info this))\<rparr>) child) (set (children this))"
  using assms indexOf_absent [of child "children this"]
  by (simp add: insertChild_def insertInto_def Let_def set_splice_insert LastNodeXPercentage_def
        LastNodeYPercentage_def)

lemma insertChild_fold_info [simp]: "info (fold insertChild cs this) = info this"
  by (induction cs arbitrary: this) auto

lemma insertChild_fold_subset:
  "set (children this) \<subseteq> set (children (fold insertChild cs this))"
proof (induction cs arbitrary: this)
  case Nil
  then show ?case by simp
next
  case (Cons c cs)
  have "set (children this) \<subseteq> set (children (insertChild c this))"
    using insertChild_set [of c this] by auto
  then show ?case using Cons.IH [of "insertChild c this"] by auto
qed

lemma insertChild_fold_parent:
  assumes "\<forall>c\<in>set cs. \<exists>q. percentage (info c) = Number (Fin q)"
    and "e \<in> set cs"
    and "\<forall>y\<in>set (children this). nid (info y) \<noteq> nid (info e)"
  shows "\<exists>c'\<in>set (children (fold insertChild cs this)).
           nid (info c') = nid (info e) \<and> parent (info c') = Some (nid (info this))"
  using assms
proof (induction cs arbitrary: this)
  case Nil
  then show ?case by simp
next
  case (Cons c cs)
  let ?t1 = "insertChild c this"
  let ?x = "upd (\<lambda>c. c\<lparr>parent := Some (nid (info this))\<rparr>) c"
  obtain q where q: "percentage (info c) = Number (Fin q)" using Cons.prems(1) by auto
  show ?case
  proof (cases "\<exists>y\<in>set (children ?t1). nid (info y) = nid (info e)")
    case True
    then obtain y where y: "y \<in> set (children ?t1)" "nid (info y) = nid (info e)" by auto
    have "y \<notin> set (children this)" using y(2) Cons.prems(3) by blast
    then have yx: "y = ?x" using y(1) insertChild_set [of c this] by auto
    have "y \<in> set (children (fold insertChild cs ?t1))"
      using y(1) insertChild_fold_subset [of ?t1 cs] by blast
    moreover have "parent (info y) = Some (nid (info this))" using yx by (simp add: upd_def)
    ultimately show ?thesis using y(2) by auto
  next
    case False
    have "e \<noteq> c"
    proof
      assume ec: "e = c"
      then have "set (children ?t1) = insert ?x (set (children this))"
        using insertChild_set_new [OF _ q] Cons.prems(3) by simp
      then have "?x \<in> set (children ?t1)" by blast
      moreover have "nid (info ?x) = nid (info e)" using ec by (simp add: upd_def)
      ultimately show False using False by blast
    qed
    then have "e \<in> set cs" using Cons.prems(2) by simp
    then have "\<exists>c'\<in>set (children (fold insertChild cs ?t1)).
           nid (info c') = nid (info e) \<and> parent (info c') = Some (nid (info ?t1))"
      using Cons.IH [of ?t1] Cons.prems(1) False by simp
    then show ?thesis by simp
  qed
qed

text \<open>
  C7. Let the children of a node be ordered ascending by the absolute value of their
  percentage and end with a sentinel. After any sequence of \<open>insertChild\<close> calls with
  percentages that are numbers in \<open>[-1, 1]\<close>, the children are still ordered; every
  inserted node that was not among the children is among them afterwards with its
  \<open>parent\<close> naming the receiver; and inserting a node that is already a child, or one
  that carries a sentinel, leaves the children as they are.
\<close>

theorem insertChild_keeps_ascending_order:
  assumes "ascending (children this)" and "endsWithSentinel (children this)"
    and "\<forall>c\<in>set cs. \<exists>q. percentage (info c) = Number (Fin q) \<and> - 1 \<le> q \<and> q \<le> 1"
  shows "ascending (children (fold insertChild cs this))
         \<and> (\<forall>c\<in>set cs. (\<forall>y\<in>set (children this). nid (info y) \<noteq> nid (info c)) \<longrightarrow>
               (\<exists>c'\<in>set (children (fold insertChild cs this)).
                  nid (info c') = nid (info c) \<and> parent (info c') = Some (nid (info this))))
         \<and> (\<forall>child. indexOf child (children this) \<noteq> - 1
                \<or> percentage (info child) = Number PInf
                \<or> percentage (info child) = Number NInf
              \<longrightarrow> children (insertChild child this) = children this)"
proof -
  have fin: "\<forall>c\<in>set cs. \<exists>q. percentage (info c) = Number (Fin q)"
    using assms(3) by blast
  have "ascending (children (fold insertChild cs this))"
    using insertChild_fold_ordered [OF assms(1) assms(2) fin] by simp
  moreover have "\<forall>c\<in>set cs. (\<forall>y\<in>set (children this). nid (info y) \<noteq> nid (info c)) \<longrightarrow>
               (\<exists>c'\<in>set (children (fold insertChild cs this)).
                  nid (info c') = nid (info c) \<and> parent (info c') = Some (nid (info this)))"
    using insertChild_fold_parent [OF fin] by blast
  moreover have "\<forall>child. indexOf child (children this) \<noteq> - 1
                \<or> percentage (info child) = Number PInf
                \<or> percentage (info child) = Number NInf
              \<longrightarrow> children (insertChild child this) = children this"
    using insertChild_noop by auto
  ultimately show ?thesis by blast
qed


theorem insertChild_keeps_ascending_order_witness:
  "ascending (children threeColumns) \<and> endsWithSentinel (children threeColumns)
   \<and> percentage (info (LayoutNode 7 (Number (Fin (1 / 2))) [])) = Number (Fin (1 / 2))
   \<and> percentage (info (LayoutNode 8 (Number (Fin (1 / 10))) [])) = Number (Fin (1 / 10))
   \<and> ascending (children (fold insertChild
         [LayoutNode 7 (Number (Fin (1 / 2))) [], LayoutNode 8 (Number (Fin (1 / 10))) []]
         threeColumns))
   \<and> map (\<lambda>c. (nid (info c), parent (info c)))
         (children (fold insertChild
            [LayoutNode 7 (Number (Fin (1 / 2))) [], LayoutNode 8 (Number (Fin (1 / 10))) []]
            threeColumns))
       = [(8, Some 0), (1, Some 0), (7, Some 0), (2, Some 0), (3, Some 0)]"
proof -
  have ev: "children threeColumns =
      [upd (\<lambda>c. c\<lparr>parent := Some 0\<rparr>) (LayoutNode 1 (Number (Fin (1 / 4))) []),
       upd (\<lambda>c. c\<lparr>parent := Some 0\<rparr>) (LayoutNode 2 (Number (Fin (3 / 4))) []),
       upd (\<lambda>c. c\<lparr>parent := Some 0, percentage := Number PInf\<rparr>)
         (LayoutNode 3 (Number (Fin 0)) [])]"
    by (simp add: threeColumns_def LayoutNode_def upd_def axis_def isColumn_def jge_def
          jle_def jeq_def LastNodeXPercentage_def)
  have h1: "ascending (children threeColumns)"
    unfolding ev by (simp add: ascending_def absPercentage_def upd_def LayoutNode_def
        jle_def jeq_def)
  have h2: "endsWithSentinel (children threeColumns)"
    unfolding ev by (simp add: endsWithSentinel_def upd_def LayoutNode_def)
  have p7: "percentage (info (LayoutNode 7 (Number (Fin (1 / 2))) [])) = Number (Fin (1 / 2))"
    and p8: "percentage (info (LayoutNode 8 (Number (Fin (1 / 10))) [])) = Number (Fin (1 / 10))"
    by (simp_all add: LayoutNode_def)
  have h3: "\<forall>c\<in>set [LayoutNode 7 (Number (Fin (1 / 2))) [],
                       LayoutNode 8 (Number (Fin (1 / 10))) []].
              \<exists>q. percentage (info c) = Number (Fin q) \<and> - 1 \<le> q \<and> q \<le> 1"
  proof -
    have "\<exists>q. percentage (info (LayoutNode 7 (Number (Fin (1 / 2))) [])) = Number (Fin q)
            \<and> - 1 \<le> q \<and> q \<le> 1"
      by (rule exI [of _ "1 / 2"]) (simp add: p7)
    moreover have "\<exists>q. percentage (info (LayoutNode 8 (Number (Fin (1 / 10))) [])) = Number (Fin q)
            \<and> - 1 \<le> q \<and> q \<le> 1"
      by (rule exI [of _ "1 / 10"]) (simp add: p8)
    ultimately show ?thesis by simp
  qed
  have r: "ascending (children (fold insertChild
         [LayoutNode 7 (Number (Fin (1 / 2))) [], LayoutNode 8 (Number (Fin (1 / 10))) []]
         threeColumns))"
    using insertChild_keeps_ascending_order [OF h1 h2 h3] by blast
  have m: "map (\<lambda>c. (nid (info c), parent (info c)))
         (children (fold insertChild
            [LayoutNode 7 (Number (Fin (1 / 2))) [], LayoutNode 8 (Number (Fin (1 / 10))) []]
            threeColumns))
       = [(8, Some 0), (1, Some 0), (7, Some 0), (2, Some 0), (3, Some 0)]"
    by (simp add: insertChild_def insertInto_def indexOf_def findIndex_def splice_def Let_def ev upd_def
          LayoutNode_def threeColumns_def jgt_def
          LastNodeXPercentage_def LastNodeYPercentage_def)
  show ?thesis using h1 h2 p7 p8 r m by blast
qed


section \<open>C8: events that are not handled\<close>

lemma Resize_not_handled:
  "Resize_handle ev this = (None, this') \<Longrightarrow> this' = this"
  by (cases ev)
     (auto simp: Resize_onButtonPress_def Resize_onButtonRelease_def Resize_onMotion_def
        Resize_handleResizing_def Let_def split: option.splits if_splits)

lemma handlePreview_not_handled:
  "PreviewSplit_handlePreview px py state this = (None, this') \<Longrightarrow> this' = this"
  unfolding PreviewSplit_handlePreview_def Let_def
  by (auto split: option.splits if_splits prod.splits)

lemma PreviewSplit_not_handled:
  "PreviewSplit_handle ev this = (None, this') \<Longrightarrow> this' = this"
  by (cases ev)
     (auto simp: PreviewSplit_onButtonPress_def PreviewSplit_onMotion_def
        PreviewSplit_onKeyPress_def PreviewSplit_onKeyRelease_def Let_def
        dest: handlePreview_not_handled split: if_splits)

lemma Margins_not_handled:
  "Margins_handle ev this = (None, this') \<Longrightarrow> this' = this"
  by (cases ev) (auto simp: Margins_onKeyPress_def split: if_splits)

lemma Snapping_cancel_not_handled:
  "Snapping_cancel this = (None, this') \<Longrightarrow> this' = this"
  by (auto simp: Snapping_cancel_def split: if_splits)

lemma Snapping_not_handled:
  "Snapping_handle ev this = (None, this') \<Longrightarrow> this' = this"
  by (cases ev)
     (auto simp: Snapping_onMotion_def Let_def dest: Snapping_cancel_not_handled
        split: if_splits option.splits)

lemma PresetShortcut_not_handled:
  "PresetShortcut_handle ev this w = (None, w') \<Longrightarrow> w' = w"
  by (cases ev) (auto simp: PresetShortcut_onKeyPress_def split: if_splits)

text \<open>
  C8. Whenever a handler of one of the five operations returns the not-handled result
  for an input event, the operation is what it was before the call: its tree, with every
  field of every node, and its other fields. For \<open>PresetShortcutOperation\<close> the state the
  callback acts on is what it was. The same holds for \<open>cancel\<close> of \<open>SnappingOperation\<close>,
  which its motion handler returns through.
\<close>

theorem not_handled_leaves_tree_unchanged:
  "(fst (Resize_handle ev r) = OperationResult_notHandled \<longrightarrow>
      snd (Resize_handle ev r) = r \<and> tree (snd (Resize_handle ev r)) = tree r)
   \<and> (fst (PreviewSplit_handle ev p) = OperationResult_notHandled \<longrightarrow>
      snd (PreviewSplit_handle ev p) = p \<and> tree (snd (PreviewSplit_handle ev p)) = tree p)
   \<and> (fst (Margins_handle ev m) = OperationResult_notHandled \<longrightarrow>
      snd (Margins_handle ev m) = m \<and> tree (snd (Margins_handle ev m)) = tree m)
   \<and> (fst (PresetShortcut_handle ev c w) = OperationResult_notHandled \<longrightarrow>
      snd (PresetShortcut_handle ev c w) = w)
   \<and> (fst (Snapping_handle ev s) = OperationResult_notHandled \<longrightarrow>
      snd (Snapping_handle ev s) = s \<and> tree (snd (Snapping_handle ev s)) = tree s)
   \<and> (fst (Snapping_cancel s) = OperationResult_notHandled \<longrightarrow>
      snd (Snapping_cancel s) = s \<and> tree (snd (Snapping_cancel s)) = tree s)"
proof -
  have "fst (Resize_handle ev r) = None \<longrightarrow> snd (Resize_handle ev r) = r"
    using Resize_not_handled [of ev r] by (cases "Resize_handle ev r") simp
  moreover have "fst (PreviewSplit_handle ev p) = None \<longrightarrow> snd (PreviewSplit_handle ev p) = p"
    using PreviewSplit_not_handled [of ev p] by (cases "PreviewSplit_handle ev p") simp
  moreover have "fst (Margins_handle ev m) = None \<longrightarrow> snd (Margins_handle ev m) = m"
    using Margins_not_handled [of ev m] by (cases "Margins_handle ev m") simp
  moreover have "fst (PresetShortcut_handle ev c w) = None \<longrightarrow>
      snd (PresetShortcut_handle ev c w) = w"
    using PresetShortcut_not_handled [of ev c w] by (cases "PresetShortcut_handle ev c w") simp
  moreover have "fst (Snapping_handle ev s) = None \<longrightarrow> snd (Snapping_handle ev s) = s"
    using Snapping_not_handled [of ev s] by (cases "Snapping_handle ev s") simp
  moreover have "fst (Snapping_cancel s) = None \<longrightarrow> snd (Snapping_cancel s) = s"
    using Snapping_cancel_not_handled [of s] by (cases "Snapping_cancel s") simp
  ultimately show ?thesis by simp
qed

theorem not_handled_leaves_tree_unchanged_witness:
  "fst (Resize_handle (KeyPress (Fin 50) (Fin 200) 0 97) (ResizeOperation seeded2x2)) = None
   \<and> fst (PreviewSplit_handle (KeyPress (Fin 50) (Fin 200) 0 97)
        \<lparr>tree = seeded2x2, prePreviewSnapshot = None, fresh = 7\<rparr>) = None
   \<and> fst (Margins_handle (KeyPress (Fin 50) (Fin 200) 0 97) (MarginsOperation seeded2x2)) = None
   \<and> fst (PresetShortcut_handle (KeyPress (Fin 50) (Fin 200) 0 97)
        \<lparr>tree = seeded2x2, presets = [], onUsePreset = recordCall\<rparr> []) = None
   \<and> fst (Snapping_handle (KeyPress (Fin 50) (Fin 200) 0 97)
        \<lparr>tree = seeded2x2, showRegions = False, enableSnappingModifiers = [4]\<rparr>) = None
   \<and> fst (Snapping_cancel
        \<lparr>tree = seeded2x2, showRegions = False, enableSnappingModifiers = [4]\<rparr>) = None
   \<and> tree (snd (PreviewSplit_handle (KeyPress (Fin 50) (Fin 200) 0 97)
        \<lparr>tree = seeded2x2, prePreviewSnapshot = None, fresh = 7\<rparr>)) = seeded2x2
   \<and> snd (PresetShortcut_handle (KeyPress (Fin 50) (Fin 200) 0 97)
        \<lparr>tree = seeded2x2, presets = [], onUsePreset = recordCall\<rparr> []) = []"
proof -
  have h1: "fst (Resize_handle (KeyPress (Fin 50) (Fin 200) 0 97) (ResizeOperation seeded2x2))
              = None"
    by simp
  have h2: "fst (PreviewSplit_handle (KeyPress (Fin 50) (Fin 200) 0 97)
        \<lparr>tree = seeded2x2, prePreviewSnapshot = None, fresh = 7\<rparr>) = None"
    by (simp add: PreviewSplit_onKeyPress_def PreviewSplit_handlePreview_def seeded2x2_value
          plain_def xywh_def isLeaf_def jge_def jle_def jeq_def CONTROL_MASK_def SHIFT_MASK_def)
  have h3: "fst (Margins_handle (KeyPress (Fin 50) (Fin 200) 0 97) (MarginsOperation seeded2x2))
              = None"
    by (simp add: Margins_onKeyPress_def KEY_Page_Up_def KEY_Page_Down_def)
  have h4: "fst (PresetShortcut_handle (KeyPress (Fin 50) (Fin 200) 0 97)
        \<lparr>tree = seeded2x2, presets = [], onUsePreset = recordCall\<rparr> []) = None"
    by (simp add: PresetShortcut_onKeyPress_def KEY_1_def KEY_2_def KEY_3_def KEY_4_def
          KEY_5_def KEY_6_def KEY_7_def KEY_8_def)
  have h5: "fst (Snapping_handle (KeyPress (Fin 50) (Fin 200) 0 97)
        \<lparr>tree = seeded2x2, showRegions = False, enableSnappingModifiers = [4]\<rparr>) = None"
    by simp
  have h6: "fst (Snapping_cancel
        \<lparr>tree = seeded2x2, showRegions = False, enableSnappingModifiers = [4]\<rparr>) = None"
    by (simp add: Snapping_cancel_def)
  show ?thesis
    using h1 h2 h3 h4 h5 h6
      not_handled_leaves_tree_unchanged
        [of "KeyPress (Fin 50) (Fin 200) 0 97" "ResizeOperation seeded2x2"
            "\<lparr>tree = seeded2x2, prePreviewSnapshot = None, fresh = 7\<rparr>"
            "MarginsOperation seeded2x2"
            "\<lparr>tree = seeded2x2, presets = [], onUsePreset = recordCall\<rparr>" "[]"
            "\<lparr>tree = seeded2x2, showRegions = False, enableSnappingModifiers = [4]\<rparr>"]
    by simp
qed


section \<open>C9: the constructor\<close>

text \<open>
  C9. A node constructed with two or more children has the percentage of its last child
  overwritten with the sentinel of the first child's axis: \<open>+\<infinity>\<close> when the first child
  is on the x axis (a column node), \<open>-\<infinity>\<close> when it is on the y axis (a row node),
  whatever percentage the last child was given. So the check of the last child in
  \<open>getIntegrityError\<close> passes on the new node.
\<close>

theorem constructor_sets_last_child_sentinel:
  assumes "2 \<le> length cs"
  shows "percentage (info (last (children (LayoutNode i p cs)))) =
           Number (if axis (cs ! 0) = AxisX then PInf else NInf)
         \<and> \<not> list_ex (\<lambda>c. percentage (info c) \<noteq> Number PInf
                            \<and> percentage (info c) \<noteq> Number NInf)
               (drop (length (children (LayoutNode i p cs)) - 1)
                  (children (LayoutNode i p cs)))"
proof -
  let ?cs1 = "map (upd (\<lambda>c. c\<lparr>parent := Some i\<rparr>)) cs"
  let ?f = "Number (if axis (cs ! 0) = AxisX then LastNodeXPercentage else LastNodeYPercentage)"
  let ?cs2 = "?cs1[length ?cs1 - 1 :=
                upd (\<lambda>c. c\<lparr>percentage := ?f\<rparr>) (?cs1 ! (length ?cs1 - 1))]"
  have pos: "0 < length cs" using assms by linarith
  have ax: "axis (?cs1 ! 0) = axis (cs ! 0)"
    using pos by (simp add: axis_upd_parent)
  have ch: "children (LayoutNode i p cs) = ?cs2"
    using assms ax by (simp add: LayoutNode_def Let_def)
  have ne: "?cs2 \<noteq> []" using pos by auto
  have la: "last ?cs2 = upd (\<lambda>c. c\<lparr>percentage := ?f\<rparr>) (?cs1 ! (length ?cs1 - 1))"
    using pos by (simp add: last_conv_nth)
  have p: "percentage (info (last ?cs2)) = ?f"
    unfolding la by (simp add: upd_def)
  have d: "drop (length ?cs2 - 1) ?cs2 = [last ?cs2]"
    using ne by (rule drop_to_last)
  show ?thesis
    unfolding ch d using p by (auto simp: LastNodeXPercentage_def LastNodeYPercentage_def)
qed

theorem constructor_sets_last_child_sentinel_witness:
  "2 \<le> length [LayoutNode 2 (Number (Fin (- (1 / 2)))) [], LayoutNode 3 (Number (Fin 0)) []]
   \<and> percentage (info (last (children (LayoutNode 1 (Number (Fin (1 / 2)))
         [LayoutNode 2 (Number (Fin (- (1 / 2)))) [], LayoutNode 3 (Number (Fin 0)) []]))))
       = Number NInf"
  using constructor_sets_last_child_sentinel
    [of "[LayoutNode 2 (Number (Fin (- (1 / 2)))) [], LayoutNode 3 (Number (Fin 0)) []]"
        1 "Number (Fin (1 / 2))"]
  by (simp add: axis_def isColumn_def jge_def jle_def jeq_def LayoutNode_def)

section \<open>C10: revert\<close>

lemma parent_upd_percentage:
  "parent (info (upd (\<lambda>c. c\<lparr>percentage := f\<rparr>) n)) = parent (info n)"
  by simp

lemma LayoutNode_children_parent:
  assumes "c \<in> set (children (LayoutNode i p cs))"
  shows "parent (info c) = Some i"
proof -
  let ?cs1 = "map (upd (\<lambda>c. c\<lparr>parent := Some i\<rparr>)) cs"
  have all1: "\<forall>d\<in>set ?cs1. parent (info d) = Some i" by auto
  show ?thesis
  proof (cases "2 \<le> length ?cs1")
    case False
    then have "children (LayoutNode i p cs) = ?cs1" by (simp add: LayoutNode_def)
    then show ?thesis using assms all1 by metis
  next
    case True
    let ?n = "length ?cs1 - 1"
    obtain f where ch: "children (LayoutNode i p cs)
        = ?cs1[?n := upd (\<lambda>c. c\<lparr>percentage := f\<rparr>) (?cs1 ! ?n)]"
      using True by (simp add: LayoutNode_def Let_def)
    have "?n < length ?cs1" using True by simp
    then have "?cs1 ! ?n \<in> set ?cs1" by (rule nth_mem)
    then have "parent (info (?cs1 ! ?n)) = Some i" using all1 by blast
    then have x: "parent (info (upd (\<lambda>c. c\<lparr>percentage := f\<rparr>) (?cs1 ! ?n))) = Some i"
      by (simp only: parent_upd_percentage)
    have "set (?cs1[?n := upd (\<lambda>c. c\<lparr>percentage := f\<rparr>) (?cs1 ! ?n)])
            \<subseteq> insert (upd (\<lambda>c. c\<lparr>percentage := f\<rparr>) (?cs1 ! ?n)) (set ?cs1)"
      by (rule set_update_subset_insert)
    then have "c \<in> insert (upd (\<lambda>c. c\<lparr>percentage := f\<rparr>) (?cs1 ! ?n)) (set ?cs1)"
      using assms ch by auto
    then show ?thesis using all1 x by blast
  qed
qed

lemma clone_counter: "k \<le> snd (clone t k)"
  and cloneChildren_counter: "k \<le> snd (cloneChildren cs k)"
  by (induction t k and cs k rule: clone_cloneChildren.induct)
     (auto split: prod.splits intro: le_trans)

lemma clone_nid: "k \<le> nid (info (fst (clone t k)))"
proof (cases t)
  case (Node i cs)
  obtain cs' k' where c: "cloneChildren cs k = (cs', k')" by (cases "cloneChildren cs k")
  have "k \<le> k'" using cloneChildren_counter [of k cs] c by simp
  then show ?thesis using Node c by (simp add: upd_def)
qed

lemma clone_children_parent:
  assumes "c \<in> set (children (fst (clone t k)))"
  shows "parent (info c) = Some (nid (info (fst (clone t k))))"
proof (cases t)
  case (Node i cs)
  obtain cs' k' where c: "cloneChildren cs k = (cs', k')" by (cases "cloneChildren cs k")
  have "c \<in> set (children (LayoutNode k' (percentage i) cs'))"
    using assms Node c by (simp add: upd_def)
  then have "parent (info c) = Some k'" by (rule LayoutNode_children_parent)
  then show ?thesis using Node c by (simp add: upd_def)
qed

text \<open>
  C10. \<open>revert\<close> takes over the children array of the snapshot as it is: the receiver
  refers to the snapshot's array, and the \<open>parent\<close> of each child is what it was, it is
  not set to the reverted node. Of the receiver's other fields, \<open>percentage\<close>, \<open>rect\<close>,
  \<open>isResizing\<close>, \<open>isPreview\<close> and \<open>margin\<close> are the snapshot's afterwards and the
  rest are unchanged. When the snapshot is a clone of the
  node, as in \<open>PreviewSplitOperation\<close>, the children name the clone as their parent and
  not the reverted node; \<open>_cancel\<close> leaves the tree in that state.
\<close>

theorem revert_keeps_parent_references:
  "children (revert this snapshot) = children snapshot
   \<and> nid (info (revert this snapshot)) = nid (info this)
   \<and> parent (info (revert this snapshot)) = parent (info this)
   \<and> isHighlighted (info (revert this snapshot)) = isHighlighted (info this)
   \<and> originalRect (info (revert this snapshot)) = originalRect (info this)
   \<and> isSnappingDestination (info (revert this snapshot)) = isSnappingDestination (info this)
   \<and> percentage (info (revert this snapshot)) = percentage (info snapshot)
   \<and> rect (info (revert this snapshot)) = rect (info snapshot)
   \<and> isResizing (info (revert this snapshot)) = isResizing (info snapshot)
   \<and> isPreview (info (revert this snapshot)) = isPreview (info snapshot)
   \<and> margin (info (revert this snapshot)) = margin (info snapshot)
   \<and> childrenRef (info (revert this snapshot)) = childrenRef (info snapshot)
   \<and> (nid (info this) < k \<longrightarrow>
        (\<forall>c\<in>set (children (revert this (fst (clone this k)))).
           parent (info c) = Some (nid (info (fst (clone this k))))
           \<and> parent (info c) \<noteq> Some (nid (info (revert this (fst (clone this k)))))))
   \<and> (prePreviewSnapshot operation = Some snapshot \<longrightarrow>
        children (tree (PreviewSplit_cancel operation)) = children snapshot
        \<and> nid (info (tree (PreviewSplit_cancel operation))) = nid (info (tree operation))
        \<and> prePreviewSnapshot (PreviewSplit_cancel operation) = None)"
proof -
  have a: "children (revert this s) = children s" for s
    by (simp add: revert_def)
  have b: "nid (info this) < k \<longrightarrow>
        (\<forall>c\<in>set (children (revert this (fst (clone this k)))).
           parent (info c) = Some (nid (info (fst (clone this k))))
           \<and> parent (info c) \<noteq> Some (nid (info (revert this (fst (clone this k))))))"
  proof (intro impI ballI)
    fix c assume lt: "nid (info this) < k"
      and c: "c \<in> set (children (revert this (fst (clone this k))))"
    have p: "parent (info c) = Some (nid (info (fst (clone this k))))"
      using c clone_children_parent unfolding a by blast
    have "nid (info this) < nid (info (fst (clone this k)))"
      using lt clone_nid [of k this] by linarith
    then show "parent (info c) = Some (nid (info (fst (clone this k))))
           \<and> parent (info c) \<noteq> Some (nid (info (revert this (fst (clone this k)))))"
      using p by (simp add: revert_def)
  qed
  have c: "prePreviewSnapshot operation = Some snapshot \<longrightarrow>
        children (tree (PreviewSplit_cancel operation)) = children snapshot
        \<and> nid (info (tree (PreviewSplit_cancel operation))) = nid (info (tree operation))
        \<and> prePreviewSnapshot (PreviewSplit_cancel operation) = None"
    by (simp add: PreviewSplit_cancel_def revert_def)
  have f: "nid (info (revert this snapshot)) = nid (info this)
   \<and> parent (info (revert this snapshot)) = parent (info this)
   \<and> isHighlighted (info (revert this snapshot)) = isHighlighted (info this)
   \<and> originalRect (info (revert this snapshot)) = originalRect (info this)
   \<and> isSnappingDestination (info (revert this snapshot)) = isSnappingDestination (info this)
   \<and> percentage (info (revert this snapshot)) = percentage (info snapshot)
   \<and> rect (info (revert this snapshot)) = rect (info snapshot)
   \<and> isResizing (info (revert this snapshot)) = isResizing (info snapshot)
   \<and> isPreview (info (revert this snapshot)) = isPreview (info snapshot)
   \<and> margin (info (revert this snapshot)) = margin (info snapshot)
   \<and> childrenRef (info (revert this snapshot)) = childrenRef (info snapshot)"
    by (simp add: revert_def)
  show ?thesis using a [of snapshot] f b c by blast
qed

theorem revert_keeps_parent_references_witness:
  "nid (info LayoutOf2x2) < 7
   \<and> prePreviewSnapshot \<lparr>tree = LayoutOf2x2,
        prePreviewSnapshot = Some (fst (clone LayoutOf2x2 7)), fresh = 14\<rparr>
       = Some (fst (clone LayoutOf2x2 7))
   \<and> nid (info (fst (clone LayoutOf2x2 7))) = 13
   \<and> map (\<lambda>c. parent (info c)) (children (revert LayoutOf2x2 (fst (clone LayoutOf2x2 7))))
       = [Some 13, Some 13]
   \<and> nid (info (revert LayoutOf2x2 (fst (clone LayoutOf2x2 7)))) = 0"
proof -
  have n: "nid (info LayoutOf2x2) = 0" by (simp add: LayoutOf2x2_def)
  have c: "nid (info (fst (clone LayoutOf2x2 7))) = 13"
    by (simp add: LayoutOf2x2_def LayoutNode_def upd_def)
  have l: "length (children (fst (clone LayoutOf2x2 7))) = 2"
    by (simp add: LayoutOf2x2_def LayoutNode_def upd_def)
  have r: "children (revert LayoutOf2x2 (fst (clone LayoutOf2x2 7)))
             = children (fst (clone LayoutOf2x2 7))"
    by (simp add: revert_def)
  have "\<forall>c\<in>set (children (revert LayoutOf2x2 (fst (clone LayoutOf2x2 7)))).
          parent (info c) = Some 13"
    using revert_keeps_parent_references
      [of LayoutOf2x2 "fst (clone LayoutOf2x2 7)" 7
          "\<lparr>tree = LayoutOf2x2, prePreviewSnapshot = Some (fst (clone LayoutOf2x2 7)),
            fresh = 14\<rparr>"]
      n c by simp
  then have al: "\<forall>c\<in>set (children (fst (clone LayoutOf2x2 7))). parent (info c) = Some 13"
    unfolding r .
  obtain a b where ab: "children (fst (clone LayoutOf2x2 7)) = [a, b]"
    using l by (auto simp: numeral_2_eq_2 length_Suc_conv)
  have m: "map (\<lambda>c. parent (info c)) (children (fst (clone LayoutOf2x2 7)))
                  = [Some 13, Some 13]"
    using al unfolding ab by simp
  show ?thesis using n c m unfolding r by (simp add: revert_def)
qed


end
